theory Spec2Isabelle
  imports Main "HOL-Library.Signed_Division"
begin

section \<open>The handler pool (web/syncPoolHandler\_elements.go)\<close>

subsection \<open>TwoLevelPath\<close>

text \<open>
  A Go slice expression \<^verbatim>\<open>s[lo:hi]\<close> on a string panics unless
  \<open>0 \<le> lo \<le> hi \<le> len(s)\<close>. The panic is the value \<open>None\<close>. Go strings are byte
  sequences and \<open>len\<close> is an \<^verbatim>\<open>int\<close>, so the indices are integers and
  \<open>l - 4\<close> is not truncated at zero.
\<close>

definition slice :: "string \<Rightarrow> int \<Rightarrow> int \<Rightarrow> string option" where
  "slice s lo hi =
     (if 0 \<le> lo \<and> lo \<le> hi \<and> hi \<le> int (length s)
      then Some (take (nat (hi - lo)) (drop (nat lo) s))
      else None)"

text \<open>
  \<^verbatim>\<open>
  func TwoLevelPath(uid string) []string {
      l := len(uid)
      switch {
      case l >= 4:
          return []string{ uid[l-1:l] + uid[l-2:l-1], uid[l-3:l-2] + uid[l-4:l-3] }
      case l >= 2:
          return []string{ uid[l-1:l] + uid[l-2:l-1] }
      default:
          return []string{}
      }
  }
  \<close>
\<close>

definition TwoLevelPath :: "string \<Rightarrow> string list option" where
  "TwoLevelPath u =
     (let l = int (length u) in
      if l \<ge> 4 then
        (case (slice u (l - 1) l, slice u (l - 2) (l - 1),
               slice u (l - 3) (l - 2), slice u (l - 4) (l - 3)) of
           (Some a, Some b, Some c, Some d) \<Rightarrow> Some [a @ b, c @ d]
         | _ \<Rightarrow> None)
      else if l \<ge> 2 then
        (case (slice u (l - 1) l, slice u (l - 2) (l - 1)) of
           (Some a, Some b) \<Rightarrow> Some [a @ b]
         | _ \<Rightarrow> None)
      else Some [])"

subsection \<open>Pool state\<close>

text \<open>
  A \<^verbatim>\<open>*SyncUserHandler\<close> is a heap object: it is modelled by its address (a
  natural number). A \<^verbatim>\<open>*poolElement\<close> is created in one place only
  (\<^verbatim>\<open>getElement\<close>), together with a fresh handler, and is never written
  afterwards, so the pair of its two fields stands for the pointer. In the same way
  \<^verbatim>\<open>PushFront\<close> in \<^verbatim>\<open>getElement\<close> is the only place that creates a
  \<^verbatim>\<open>*list.Element\<close>, one per pool element, so an LRU node is identified with the
  pool element it carries: \<open>lru\<close> is the list of the nodes' values, front first, and
  \<open>lrumap\<close> sends a uid to the value of the node it points to. The two opaque
  configurations (\<^verbatim>\<open>dbConfig\<close>, \<^verbatim>\<open>userHandlerConfig\<close>) and the mutexes are left
  out: the model is sequential.
\<close>

record poolElement =
  uid :: string
  handler :: nat

record handlerPool =
  base :: "string list"
  elements :: "string \<rightharpoonup> poolElement"
  lru :: "poolElement list"
  lrumap :: "string \<rightharpoonup> poolElement"
  maxPoolSize :: int

text \<open>
  The world a pool operation runs in: the pool, and the heap of handlers: which
  addresses are Stopped, and the next fresh address.
\<close>

record world =
  pool :: handlerPool
  stoppedHandlers :: "nat \<Rightarrow> bool"
  nextHandler :: nat

text \<open>
  Modelled from the spec: \<^verbatim>\<open>SyncUserHandler\<close> (web/syncUserHandler.go is not among
  the sources). The spec says of it: \<^verbatim>\<open>StopHTTP()\<close> transitions to Stopped;
  \<^verbatim>\<open>IsStopped() -> bool\<close>. A newly constructed handler is a fresh object that is not
  Stopped.
\<close>

definition StopHTTP :: "nat \<Rightarrow> world \<Rightarrow> world" where
  "StopHTTP h w = w\<lparr>stoppedHandlers := (stoppedHandlers w)(h := True)\<rparr>"

definition IsStopped :: "world \<Rightarrow> nat \<Rightarrow> bool" where
  "IsStopped w h = stoppedHandlers w h"

definition NewSyncUserHandler :: "world \<Rightarrow> nat \<times> world" where
  "NewSyncUserHandler w =
     (nextHandler w,
      w\<lparr>stoppedHandlers := (stoppedHandlers w)(nextHandler w := False),
        nextHandler := Suc (nextHandler w)\<rparr>)"

text \<open>
  \<^verbatim>\<open>newHandlerPool\<close>. The path library (\<^verbatim>\<open>filepath.Abs\<close>, \<^verbatim>\<open>filepath.Clean\<close>,
  \<^verbatim>\<open>strings.Split\<close> on the separator) is the parameter \<open>absSplit\<close>.
\<close>

definition newHandlerPool :: "(string \<Rightarrow> string list) \<Rightarrow> string \<Rightarrow> int \<Rightarrow> handlerPool" where
  "newHandlerPool absSplit basepath maxSize =
     \<lparr>base = (if basepath = '':memory:'' then ['':memory:''] else absSplit basepath),
      elements = Map.empty,
      lru = [],
      lrumap = Map.empty,
      maxPoolSize = maxSize\<rparr>"

definition newWorld :: "handlerPool \<Rightarrow> world" where
  "newWorld p = \<lparr>pool = p, stoppedHandlers = (\<lambda>h. False), nextHandler = 0\<rparr>"

subsection \<open>cleanupHandlers and stopHandlers\<close>

text \<open>
  \<^verbatim>\<open>
  func (p *handlerPool) cleanupHandlers(maxClean int) {
      numCleaned := 0
      lruElement := p.lru.Back()
      for lruElement != nil && numCleaned < maxClean {
          element := lruElement.Value.(*poolElement)
          element.handler.StopHTTP()
          next := lruElement.Prev()
          p.Lock()
          p.lru.Remove(lruElement)
          delete(p.lrumap, element.uid)
          delete(p.elements, element.uid)
          p.Unlock()
          lruElement = next
          numCleaned++
      }
  }
  \<close>
  The cursor starts at the back of the list; the node it leaves is removed, and its
  predecessor is the new back. So in every iteration the cursor is the last node of the
  list, and it is nil exactly when the list is empty. \<open>popBack\<close> is the loop body.
\<close>

definition popBack :: "world \<Rightarrow> world" where
  "popBack w =
     (let element = last (lru (pool w));
          w1 = StopHTTP (handler element) w
      in w1\<lparr>pool := (pool w1)
             \<lparr>lru := butlast (lru (pool w1)),
              lrumap := (lrumap (pool w1))(uid element := None),
              elements := (elements (pool w1))(uid element := None)\<rparr>\<rparr>)"

function cleanupLoop :: "int \<Rightarrow> int \<Rightarrow> world \<Rightarrow> world" where
  "cleanupLoop maxClean numCleaned w =
     (if lru (pool w) \<noteq> [] \<and> numCleaned < maxClean
      then cleanupLoop maxClean (numCleaned + 1) (popBack w)
      else w)"
  by pat_completeness auto
termination
  by (relation "measure (\<lambda>(maxClean, numCleaned, w). nat (maxClean - numCleaned))") auto

declare cleanupLoop.simps [simp del]

definition cleanupHandlers :: "int \<Rightarrow> world \<Rightarrow> world" where
  "cleanupHandlers maxClean w = cleanupLoop maxClean 0 w"

definition stopHandlers :: "world \<Rightarrow> world" where
  "stopHandlers w = cleanupHandlers (int (length (lru (pool w)))) w"

subsection \<open>getElement\<close>

datatype poolError =
  ErrElementStopped | CouldNotCreateDatadir | CouldNotCreateDB | RuntimePanic

text \<open>
  What \<^verbatim>\<open>getElement\<close> asks of the operating system and of the storage engine:
  \<open>dirExists d\<close> says that the error of \<^verbatim>\<open>os.Stat(d)\<close> is not one for which
  \<^verbatim>\<open>os.IsNotExist\<close> holds, \<open>mkdirAllFails d\<close> that \<^verbatim>\<open>os.MkdirAll(d, 0755)\<close>
  returns an error, and \<open>newDBFails f\<close> that \<^verbatim>\<open>syncstorage.NewDB\<close> returns an error
  for the database file \<open>f\<close>.
\<close>

record osenv =
  dirExists :: "string \<Rightarrow> bool"
  mkdirAllFails :: "string \<Rightarrow> bool"
  newDBFails :: "string \<Rightarrow> bool"

text \<open>
  \<^verbatim>\<open>filepath.Join\<close> of the library: the non-empty elements, joined by the separator
  (its final \<^verbatim>\<open>Clean\<close> is not modelled; the result is only a name handed to
  \<open>osenv\<close>).
\<close>

fun joinWith :: "string \<Rightarrow> string list \<Rightarrow> string" where
  "joinWith sep [] = []"
| "joinWith sep [x] = x"
| "joinWith sep (x # y # ys) = x @ sep @ joinWith sep (y # ys)"

definition filepath_Join :: "string list \<Rightarrow> string" where
  "filepath_Join elems = joinWith ''/'' (filter (\<lambda>e. e \<noteq> []) elems)"

definition PathAndFile :: "handlerPool \<Rightarrow> string \<Rightarrow> (string \<times> string) option" where
  "PathAndFile p u =
     (case TwoLevelPath u of
        None \<Rightarrow> None
      | Some sub \<Rightarrow> Some (''/'' @ filepath_Join (base p @ sub), u @ ''.db''))"

definition dbFileFor :: "osenv \<Rightarrow> handlerPool \<Rightarrow> string \<Rightarrow> poolError + string" where
  "dbFileFor env p u =
     (if base p = ['':memory:''] then Inr '':memory:''
      else
        (case PathAndFile p u of
           None \<Rightarrow> Inl RuntimePanic
         | Some (storageDir, filename) \<Rightarrow>
             if \<not> dirExists env storageDir \<and> mkdirAllFails env storageDir
             then Inl CouldNotCreateDatadir
             else Inr (storageDir @ ''/'' @ filename)))"

text \<open>
  \<^verbatim>\<open>list.MoveToFront(e)\<close>: nothing happens when \<open>e\<close> is not a node of the list.
\<close>

definition MoveToFront :: "poolElement \<Rightarrow> poolElement list \<Rightarrow> poolElement list" where
  "MoveToFront node xs = (if node \<in> set xs then node # remove1 node xs else xs)"

text \<open>
  \<^verbatim>\<open>
  func (p *handlerPool) getElement(uid string) (*poolElement, bool, error) {
      p.Lock(); defer p.Unlock()
      elementCreated := false
      if element, ok = p.elements[uid]; !ok {
          if len(p.base) == 1 && p.base[0] == ":memory:" { dbFile = ":memory:" }
          else { ... MkdirAll ... return nil, false, "Could not create datadir" ... }
          if p.lru.Len() > p.maxPoolSize {
              p.Unlock()
              p.cleanupHandlers(1 + p.maxPoolSize/10) // clean up ~10%
              p.Lock()
          }
          db, err := syncstorage.NewDB(dbFile, p.dbConfig)
          if err != nil { return nil, false, "Could not create DB" }
          element = &poolElement{uid: uid, handler: NewSyncUserHandler(uid, db, ...)}
          elementCreated = true
          p.elements[uid] = element
          listElement := p.lru.PushFront(element)
          p.lrumap[uid] = listElement
      } else {
          if element.handler.IsStopped() { return nil, false, errElementStopped }
          p.lru.MoveToFront(p.lrumap[uid])
      }
      return element, elementCreated, nil
  }
  \<close>
  The result is the error, or the element with the flag \<^verbatim>\<open>elementCreated\<close>.
  \<open>evictIfFull\<close> is the test of the pool size with the call of \<^verbatim>\<open>cleanupHandlers\<close>,
  \<open>insertElement\<close> the construction of the element and its insertion in the two maps
  and at the front of the list. Go's
  integer division truncates towards zero (\<open>sdiv\<close>). \<^verbatim>\<open>MoveToFront\<close> of the nil
  pointer that a missing \<^verbatim>\<open>lrumap\<close> entry gives is a nil dereference.
\<close>

definition evictIfFull :: "world \<Rightarrow> world" where
  "evictIfFull w =
     (if int (length (lru (pool w))) > maxPoolSize (pool w)
      then cleanupHandlers (1 + maxPoolSize (pool w) sdiv 10) w
      else w)"

definition insertElement :: "string \<Rightarrow> world \<Rightarrow> poolElement \<times> world" where
  "insertElement u w1 =
     (case NewSyncUserHandler w1 of
        (h, w2) \<Rightarrow>
          (let element = \<lparr>uid = u, handler = h\<rparr>
           in (element,
               w2\<lparr>pool := (pool w2)
                    \<lparr>elements := (elements (pool w2))(u \<mapsto> element),
                     lru := element # lru (pool w2),
                     lrumap := (lrumap (pool w2))(u \<mapsto> element)\<rparr>\<rparr>)))"

definition getElement ::
  "osenv \<Rightarrow> string \<Rightarrow> world \<Rightarrow> (poolError + poolElement \<times> bool) \<times> world" where
  "getElement env u w =
     (case elements (pool w) u of
        None \<Rightarrow>
          (case dbFileFor env (pool w) u of
             Inl e \<Rightarrow> (Inl e, w)
           | Inr dbFile \<Rightarrow>
               (let w1 = evictIfFull w
                in if newDBFails env dbFile then (Inl CouldNotCreateDB, w1)
                   else
                     (case insertElement u w1 of
                        (element, w3) \<Rightarrow> (Inr (element, True), w3))))
      | Some element \<Rightarrow>
          if IsStopped w (handler element) then (Inl ErrElementStopped, w)
          else
            (case lrumap (pool w) u of
               None \<Rightarrow> (Inl RuntimePanic, w)
             | Some node \<Rightarrow>
                 (Inr (element, False),
                  w\<lparr>pool := (pool w)\<lparr>lru := MoveToFront node (lru (pool w))\<rparr>\<rparr>)))"

subsection \<open>Invariants of the pool, and pools to evaluate on\<close>

text \<open>
  The three invariants the design states for the pool at rest: the keys of
  \<open>elements\<close> and of the LRU index are the same; the value of every LRU node is in
  \<open>elements\<close> under its own uid; no handler is twice in the LRU list.
\<close>

definition pool_inv :: "handlerPool \<Rightarrow> bool" where
  "pool_inv p =
     (dom (elements p) = dom (lrumap p)
      \<and> list_all (\<lambda>e. elements p (uid e) = Some e) (lru p)
      \<and> distinct (map handler (lru p)))"

text \<open>
  What holds in addition in every state the operations reach from a new pool: every
  element is on the LRU list, the LRU index points to the node of the element, and the
  handlers in the pool were allocated before the next fresh address.
\<close>

definition all_on_lru :: "handlerPool \<Rightarrow> bool" where
  "all_on_lru p = (dom (elements p) \<subseteq> uid ` set (lru p))"

definition pool_wf :: "world \<Rightarrow> bool" where
  "pool_wf w =
     (pool_inv (pool w) \<and> all_on_lru (pool w) \<and> lrumap (pool w) = elements (pool w)
      \<and> list_all (\<lambda>e. handler e < nextHandler w) (lru (pool w)))"

text \<open>
  A pool in memory (the base path \<^verbatim>\<open>:memory:\<close>, as the tests use it), an
  environment in which nothing fails, and a sequence of \<^verbatim>\<open>getElement\<close> calls.
\<close>

definition memoryEnv :: osenv where
  "memoryEnv = \<lparr>dirExists = (\<lambda>d. True), mkdirAllFails = (\<lambda>d. False), newDBFails = (\<lambda>f. False)\<rparr>"

definition memoryPool :: "int \<Rightarrow> world" where
  "memoryPool maxSize = newWorld (newHandlerPool (\<lambda>path. []) '':memory:'' maxSize)"

fun acquireAll :: "osenv \<Rightarrow> string list \<Rightarrow> world \<Rightarrow> world" where
  "acquireAll env [] w = w"
| "acquireAll env (u # us) w = acquireAll env us (snd (getElement env u w))"

text \<open>
  Three users in a pool of 64; one user whose handler was stopped behind the pool's
  back; and twelve distinct uids for a pool of 10.
\<close>

definition threeUsers :: world where
  "threeUsers = acquireAll memoryEnv [''1'', ''2'', ''3''] (memoryPool 64)"

definition stoppedUser :: world where
  "stoppedUser = StopHTTP 0 (acquireAll memoryEnv [''42''] (memoryPool 64))"

definition elevenUids :: "string list" where
  "elevenUids = [''1'', ''2'', ''3'', ''4'', ''5'', ''6'', ''7'', ''8'', ''9'', ''10'', ''11'']"

definition elevenUsers :: world where
  "elevenUsers = acquireAll memoryEnv elevenUids (memoryPool 10)"

section \<open>The HTTP API (package api)\<close>

subsection \<open>Decimal numbers, JSON documents\<close>

text \<open>
  \<^verbatim>\<open>strconv.FormatUint(n, 10)\<close> and the \<^verbatim>\<open>%d\<close> of \<^verbatim>\<open>fmt\<close>: the decimal digits
  of a number.
\<close>

definition digitChar :: "nat \<Rightarrow> char" where
  "digitChar d = ''0123456789'' ! d"

function showNat :: "nat \<Rightarrow> string" where
  "showNat n = (if n < 10 then [digitChar n] else showNat (n div 10) @ [digitChar (n mod 10)])"
  by pat_completeness auto
termination
  by (relation "measure (\<lambda>n. n)") auto

declare showNat.simps [simp del]

definition showInt :: "int \<Rightarrow> string" where
  "showInt i = (if i < 0 then ''-'' @ showNat (nat (- i)) else showNat (nat i))"

text \<open>
  A Go value handed to \<^verbatim>\<open>json.Marshal\<close> is represented by the JSON document the
  encoder makes of it. \<open>encodeJSON\<close> is the compact encoding \<^verbatim>\<open>json.Marshal\<close>
  writes: no white space between tokens, and inside a string the escapes of the
  encoder for the bytes below \<^verbatim>\<open>0x80\<close>: the quote and the backslash after a
  backslash, newline, carriage return and tab as \<^verbatim>\<open>\n\<close>, \<^verbatim>\<open>\r\<close>, \<^verbatim>\<open>\t\<close>, and every
  other byte below \<^verbatim>\<open>0x20\<close> as well as \<^verbatim>\<open><\<close>, \<^verbatim>\<open>>\<close> and \<^verbatim>\<open>&\<close> as \<^verbatim>\<open>\u00XX\<close>
  with two lower-case hexadecimal digits. The bytes from \<^verbatim>\<open>0x80\<close> on are copied: the
  encoder's replacement of invalid UTF-8 and its escapes of U+2028 and U+2029 are not
  modelled. A number is an integer here: the floating-point values of
  \<^verbatim>\<open>hInfoCollectionUsage\<close> are out of the model.
\<close>

datatype json =
  JNull
| JBool bool
| JNumber int
| JString string
| JArray "json list"
| JObject "(string \<times> json) list"

definition newline :: char where
  "newline = CHR 0x0A"

definition hexChar :: "nat \<Rightarrow> char" where
  "hexChar d = ''0123456789abcdef'' ! d"

definition escapeChar :: "char \<Rightarrow> string" where
  "escapeChar c =
     (if c = CHR 0x22 then [CHR 0x5C, CHR 0x22]
      else if c = CHR 0x5C then [CHR 0x5C, CHR 0x5C]
      else if c = CHR 0x0A then [CHR 0x5C, CHR ''n'']
      else if c = CHR 0x0D then [CHR 0x5C, CHR ''r'']
      else if c = CHR 0x09 then [CHR 0x5C, CHR ''t'']
      else if (of_char c :: nat) < 0x20 \<or> c = CHR ''<'' \<or> c = CHR ''>'' \<or> c = CHR ''&''
      then [CHR 0x5C, CHR ''u'', CHR ''0'', CHR ''0'',
            hexChar ((of_char c :: nat) div 16), hexChar ((of_char c :: nat) mod 16)]
      else [c])"

definition encodeString :: "string \<Rightarrow> string" where
  "encodeString s = [CHR 0x22] @ concat (map escapeChar s) @ [CHR 0x22]"

fun encodeJSON :: "json \<Rightarrow> string"
  and encodeElems :: "json list \<Rightarrow> string"
  and encodeMembers :: "(string \<times> json) list \<Rightarrow> string" where
  "encodeJSON JNull = ''null''"
| "encodeJSON (JBool b) = (if b then ''true'' else ''false'')"
| "encodeJSON (JNumber i) = showInt i"
| "encodeJSON (JString s) = encodeString s"
| "encodeJSON (JArray xs) = ''['' @ encodeElems xs @ '']''"
| "encodeJSON (JObject kvs) = ''{'' @ encodeMembers kvs @ ''}''"
| "encodeElems [] = []"
| "encodeElems [x] = encodeJSON x"
| "encodeElems (x # y # ys) = encodeJSON x @ '','' @ encodeElems (y # ys)"
| "encodeMembers [] = []"
| "encodeMembers [(k, v)] = encodeString k @ '':'' @ encodeJSON v"
| "encodeMembers ((k, v) # kv # kvs) =
     encodeString k @ '':'' @ encodeJSON v @ '','' @ encodeMembers (kv # kvs)"

text \<open>
  \<^verbatim>\<open>json.Unmarshal(js, &vals)\<close> with \<^verbatim>\<open>vals []json.RawMessage\<close>, on the document
  \<open>js\<close> that \<^verbatim>\<open>json.Marshal\<close> has just written. The decoder fills the slice with
  the raw text of each element when the document is an array; it sets a slice to nil,
  without an error, when the document is \<^verbatim>\<open>null\<close> (the package's rule for null
  into an interface, map, pointer or slice); every other document is an error.
\<close>

definition unmarshalRaw :: "json \<Rightarrow> string list option" where
  "unmarshalRaw v =
     (case v of
        JArray xs \<Rightarrow> Some (map encodeJSON xs)
      | JNull \<Rightarrow> Some []
      | _ \<Rightarrow> None)"

subsection \<open>Requests and responses\<close>

text \<open>
  A request: the variables the router matched (\<^verbatim>\<open>mux.Vars\<close>), the headers and
  the body. \<^verbatim>\<open>Header.Get\<close> and a lookup in a Go map give the empty string for a
  missing key.
\<close>

record request =
  muxVars :: "string \<rightharpoonup> string"
  reqHeader :: "string \<rightharpoonup> string"
  reqBody :: string

definition Header_Get :: "request \<Rightarrow> string \<Rightarrow> string" where
  "Header_Get r k = (case reqHeader r k of None \<Rightarrow> [] | Some v \<Rightarrow> v)"

definition Vars :: "request \<Rightarrow> string \<Rightarrow> string" where
  "Vars r k = (case muxVars r k of None \<Rightarrow> [] | Some v \<Rightarrow> v)"

text \<open>
  An \<^verbatim>\<open>http.ResponseWriter\<close>: the status is \<open>None\<close> until the header is written.
  The first \<^verbatim>\<open>WriteHeader\<close> wins; \<^verbatim>\<open>Write\<close> writes the header with status 200 when
  none was written; a header set after the status line has been written is not sent.
  A handler that returns without writing answers 200 (\<open>finalStatus\<close>).
\<close>

record response =
  status :: "nat option"
  headers :: "string \<rightharpoonup> string"
  body :: string

definition emptyResponse :: response where
  "emptyResponse = \<lparr>status = None, headers = Map.empty, body = []\<rparr>"

definition Header_Set :: "string \<Rightarrow> string \<Rightarrow> response \<Rightarrow> response" where
  "Header_Set k v w = (if status w = None then w\<lparr>headers := (headers w)(k \<mapsto> v)\<rparr> else w)"

definition WriteHeader :: "nat \<Rightarrow> response \<Rightarrow> response" where
  "WriteHeader code w = (if status w = None then w\<lparr>status := Some code\<rparr> else w)"

definition Write :: "string \<Rightarrow> response \<Rightarrow> response" where
  "Write bytes w = (let w1 = WriteHeader 200 w in w1\<lparr>body := body w1 @ bytes\<rparr>)"

definition finalStatus :: "response \<Rightarrow> nat" where
  "finalStatus w = (case status w of None \<Rightarrow> 200 | Some code \<Rightarrow> code)"

text \<open>
  \<^verbatim>\<open>http.Error(w, msg, code)\<close> of the library sets two headers, writes the status
  and prints the message and a newline; \<^verbatim>\<open>http.NotFound\<close> is
  \<^verbatim>\<open>http.Error(w, "404 page not found", 404)\<close>.
\<close>

definition http_Error :: "response \<Rightarrow> string \<Rightarrow> nat \<Rightarrow> response" where
  "http_Error w msg code =
     Write (msg @ [newline])
       (WriteHeader code
          (Header_Set ''X-Content-Type-Options'' ''nosniff''
             (Header_Set ''Content-Type'' ''text/plain; charset=utf-8'' w)))"

definition http_NotFound :: "response \<Rightarrow> response" where
  "http_NotFound w = http_Error w ''404 page not found'' 404"

text \<open>
  \<^verbatim>\<open>
  func (c *Context) Error(w, r, err) {
      http.Error(w, http.StatusText(http.StatusInternalServerError), http.StatusInternalServerError)
  }
  \<close>
\<close>

definition Context_Error :: "response \<Rightarrow> response" where
  "Context_Error w = http_Error w ''Internal Server Error'' 500"

text \<open>
  \<^verbatim>\<open>
  func okResponse(w http.ResponseWriter, s string) {
      w.Header().Set("Content-Type", "text/plain; charset=utf-8")
      w.Header().Set("X-Content-Type-Options", "nosniff")
      w.WriteHeader(http.StatusOK)
      fmt.Fprint(w, s)
  }
  func (c *Context) handleEchoUID(w, r, uid string) { okResponse(w, uid) }
  \<close>
\<close>

definition okResponse :: "response \<Rightarrow> string \<Rightarrow> response" where
  "okResponse w text =
     Write text
       (WriteHeader 200
          (Header_Set ''X-Content-Type-Options'' ''nosniff''
             (Header_Set ''Content-Type'' ''text/plain; charset=utf-8'' w)))"

definition handleEchoUID :: "request \<Rightarrow> string \<Rightarrow> response \<times> 's \<Rightarrow> response \<times> 's" where
  "handleEchoUID r u ws = (case ws of (w, s) \<Rightarrow> (okResponse w u, s))"

subsection \<open>The response shaper: JsonNewline, NewLine, JSON\<close>

text \<open>
  \<^verbatim>\<open>
  func (c *Context) NewLine(w, r, val interface{}) {
      var vals []json.RawMessage
      js, err := json.Marshal(val)
      if err != nil { c.Error(w, r, err); return }
      w.Header().Set("Content-Type", "application/newlines")
      newlineChar := []byte("\n")
      err = json.Unmarshal(js, &vals)
      if err != nil { // not an array
          w.Write(js); w.Write(newlineChar)
      } else {
          for _, raw := range vals { w.Write(raw); w.Write(newlineChar) }
      }
  }
  \<close>
  The value \<open>val\<close> is what \<^verbatim>\<open>json.Marshal\<close> makes of it: \<open>Inl\<close> an error, or
  \<open>Inr\<close> the document.
\<close>

fun writeLines :: "string list \<Rightarrow> response \<Rightarrow> response" where
  "writeLines [] w = w"
| "writeLines (raw # vals) w = writeLines vals (Write [newline] (Write raw w))"

definition NewLine :: "string + json \<Rightarrow> response \<Rightarrow> response" where
  "NewLine val w =
     (case val of
        Inl err \<Rightarrow> Context_Error w
      | Inr v \<Rightarrow>
          (let js = encodeJSON v;
               w1 = Header_Set ''Content-Type'' ''application/newlines'' w
           in case unmarshalRaw v of
                None \<Rightarrow> Write [newline] (Write js w1)
              | Some vals \<Rightarrow> writeLines vals w1))"

definition Context_JSON :: "string + json \<Rightarrow> response \<Rightarrow> response" where
  "Context_JSON val w =
     (case val of
        Inl err \<Rightarrow> Context_Error w
      | Inr v \<Rightarrow> Write (encodeJSON v) (Header_Set ''Content-Type'' ''application/json'' w))"

definition JsonNewline :: "request \<Rightarrow> string + json \<Rightarrow> response \<Rightarrow> response" where
  "JsonNewline r val w =
     (if Header_Get r ''Accept'' = ''application/newlines'' then NewLine val w
      else Context_JSON val w)"

subsection \<open>The storage engine and the decoders, as parameters\<close>

text \<open>
  Package \<^verbatim>\<open>syncstorage\<close> is not among the sources: the validators and the
  operations of \<^verbatim>\<open>Dispatch\<close> that the handlers call are the fields of \<open>Dispatch\<close>,
  over a type \<open>'s\<close> of stores. A Go function that returns \<^verbatim>\<open>(value, error)\<close>
  returns a pair here, the error \<open>None\<close> for nil; an operation that writes returns the
  store it leaves. A \<^verbatim>\<open>*BSO\<close> is represented by the JSON document it marshals to.
\<close>

datatype storageError =
  ErrNotFound | ErrInvalidCollectionName | ErrPayloadTooBig | ErrStorage string

record PutBSOInput =
  bso_Id :: string
  bso_Payload :: "string option"
  bso_SortIndex :: "int option"
  bso_TTL :: "int option"

record PostResults =
  res_Modified :: int
  res_Success :: "string list"
  res_Failed :: "(string \<times> string list) list"

record 's Dispatch =
  BSOIdOk :: "string \<Rightarrow> bool"
  CollectionNameOk :: "string \<Rightarrow> bool"
  ErrorText :: "storageError \<Rightarrow> string"
  ModifiedToString :: "int \<Rightarrow> string"
  GetCollectionId :: "'s \<Rightarrow> string \<Rightarrow> string \<Rightarrow> int \<times> storageError option"
  CreateCollection :: "'s \<Rightarrow> string \<Rightarrow> string \<Rightarrow> (int \<times> storageError option) \<times> 's"
  GetBSO :: "'s \<Rightarrow> string \<Rightarrow> int \<Rightarrow> string \<Rightarrow> json \<times> storageError option"
  PutBSO :: "'s \<Rightarrow> string \<Rightarrow> int \<Rightarrow> string \<Rightarrow> string option \<Rightarrow> int option \<Rightarrow> int option
               \<Rightarrow> (int \<times> storageError option) \<times> 's"
  PostBSOs :: "'s \<Rightarrow> string \<Rightarrow> int \<Rightarrow> PutBSOInput list
               \<Rightarrow> (PostResults \<times> storageError option) \<times> 's"

text \<open>
  The JSON decoder of the library, on a request body: \<open>DecodePost\<close> and
  \<open>DecodePut\<close> are \<^verbatim>\<open>json.NewDecoder(r.Body).Decode\<close> into the handler's variable
  (\<open>None\<close>: the decoder's error), \<open>UnmarshalBSO\<close> is \<^verbatim>\<open>json.Unmarshal\<close> of one line
  (\<open>Inl\<close>: the error's text). The variable of the POST handler is a
  \<^verbatim>\<open>syncstorage.PostBSOInput\<close>, a slice of pointers \<^verbatim>\<open>[]*PutBSOInput\<close>: the decoder
  stores a nil pointer for an element of the array that is \<^verbatim>\<open>null\<close>. An item of the
  decoded list is \<open>None\<close> for the nil pointer, \<open>Some\<close> of the record otherwise.
\<close>

record codec =
  DecodePost :: "string \<Rightarrow> PutBSOInput option list option"
  DecodePut :: "string \<Rightarrow> (string option \<times> int option \<times> int option) option"
  UnmarshalBSO :: "string \<Rightarrow> string + PutBSOInput"

text \<open>
  Go's \<^verbatim>\<open>int\<close> has 64 bits here: a product wraps around.
\<close>

definition mul64 :: "int \<Rightarrow> int \<Rightarrow> int" where
  "mul64 a b = signed_take_bit 63 (a * b)"

definition MAX_BSO_PER_POST_REQUEST :: nat where
  "MAX_BSO_PER_POST_REQUEST = 100"

definition MAX_BSO_PAYLOAD_SIZE :: nat where
  "MAX_BSO_PAYLOAD_SIZE = 256 * 1024"

subsection \<open>The auth middleware: hawk\<close>

text \<open>
  Package \<^verbatim>\<open>token\<close> and the Hawk library are not among the sources: what the
  middleware asks of them is the record \<open>hawkLib\<close>. \<open>NewAuthFromRequest\<close> parses the
  header; \<open>ParseToken secret id\<close> returns \<^verbatim>\<open>(Token, error)\<close>; \<open>Valid auth key\<close> is
  \<^verbatim>\<open>auth.Valid()\<close> once \<^verbatim>\<open>auth.Credentials.Key\<close> is the key (\<open>None\<close>: nil, else the
  error's text); \<open>ValidHash auth contentType content\<close> is the comparison of the payload
  hash. The two errors of a token are the spec's \<^verbatim>\<open>Invalid\<close> and \<^verbatim>\<open>Expired\<close>, with
  the texts of \<^verbatim>\<open>ErrTokenInvalid\<close> and \<^verbatim>\<open>ErrTokenExpired\<close>.
\<close>

datatype tokenError = ErrTokenInvalid | ErrTokenExpired

definition tokenErrorText :: "tokenError \<Rightarrow> string" where
  "tokenErrorText e =
     (case e of ErrTokenInvalid \<Rightarrow> ''Token is invalid'' | ErrTokenExpired \<Rightarrow> ''Token is expired'')"

record token =
  tokenUid :: nat
  DerivedSecret :: string

definition zeroToken :: token where
  "zeroToken = \<lparr>tokenUid = 0, DerivedSecret = []\<rparr>"

datatype hawkError = AuthFormatError string string | AuthError string

record hawkAuth =
  CredentialsID :: string
  hasHash :: bool

record hawkLib =
  NewAuthFromRequest :: "request \<Rightarrow> hawkError + hawkAuth"
  ParseToken :: "string \<Rightarrow> string \<Rightarrow> token \<times> tokenError option"
  Valid :: "hawkAuth \<Rightarrow> string \<Rightarrow> string option"
  ValidHash :: "hawkAuth \<Rightarrow> string \<Rightarrow> string \<Rightarrow> bool"

record Context =
  Secrets :: "string list"
  DisableHawk :: bool
  MaxBSOGetLimit :: int

text \<open>
  \<^verbatim>\<open>
  var ( parsedToken token.Token; tokenError error = ErrTokenInvalid )
  for _, secret := range c.Secrets {
      parsedToken, tokenError = token.ParseToken([]byte(secret), auth.Credentials.ID)
      if err != nil { // wrong secret..
          continue
      }
  }
  \<close>
  The loop tests \<^verbatim>\<open>err\<close>, the error of the header parse above it (nil at this
  point), not \<^verbatim>\<open>tokenError\<close>; and either way the next iteration follows. \<open>err\<close> is
  a parameter of the loop, \<open>acc\<close> the two variables the body assigns.
\<close>

fun tokenLoop ::
  "(string \<Rightarrow> string \<Rightarrow> token \<times> tokenError option) \<Rightarrow> hawkError option \<Rightarrow> string list \<Rightarrow> string
     \<Rightarrow> token \<times> tokenError option \<Rightarrow> token \<times> tokenError option" where
  "tokenLoop parse err [] cid acc = acc"
| "tokenLoop parse err (secret # rest) cid acc =
     (let acc' = parse secret cid
      in if err \<noteq> None then tokenLoop parse err rest cid acc'
         else tokenLoop parse err rest cid acc')"

text \<open>
  \<^verbatim>\<open>hawk(h)\<close>, the middleware around a handler \<open>h\<close>. A handler takes the request
  and the uid, and transforms the response written so far and the store.
  (\<^verbatim>\<open>ioutil.ReadAll\<close> of the body cannot fail in the model.)
\<close>

definition hawk ::
  "hawkLib \<Rightarrow> Context \<Rightarrow> (request \<Rightarrow> string \<Rightarrow> response \<times> 's \<Rightarrow> response \<times> 's)
     \<Rightarrow> request \<Rightarrow> response \<times> 's \<Rightarrow> response \<times> 's" where
  "hawk lib c h r ws =
     (case ws of (w, s) \<Rightarrow>
        if DisableHawk c then
          (case muxVars r ''uid'' of
             None \<Rightarrow> (http_Error w ''do not have a uid to work with'' 400, s)
           | Some u \<Rightarrow> h r u (w, s))
        else
          (case NewAuthFromRequest lib r of
             Inl (AuthFormatError field e) \<Rightarrow>
               (http_Error w (''Malformed hawk header, field: '' @ field @ '', err: '' @ e) 400, s)
           | Inl (AuthError msg) \<Rightarrow>
               (http_Error (Header_Set ''WWW-Authenticate'' ''Hawk'' w) msg 401, s)
           | Inr auth \<Rightarrow>
               (case tokenLoop (ParseToken lib) None (Secrets c) (CredentialsID auth)
                       (zeroToken, Some ErrTokenInvalid) of
                  (parsedToken, Some tokenError) \<Rightarrow>
                    (http_Error w (''Invalid token: '' @ tokenErrorText tokenError) 400, s)
                | (parsedToken, None) \<Rightarrow>
                    (case Valid lib auth (DerivedSecret parsedToken) of
                       Some msg \<Rightarrow>
                         (http_Error (Header_Set ''WWW-Authenticate'' ''Hawk'' w) msg 401, s)
                     | None \<Rightarrow>
                         if hasHash auth \<and> Header_Get r ''Content-Type'' = []
                         then (http_Error w ''Content-Type missing'' 400, s)
                         else if hasHash auth
                                 \<and> \<not> ValidHash lib auth (Header_Get r ''Content-Type'') (reqBody r)
                         then (http_Error (Header_Set ''WWW-Authenticate'' ''Hawk'' w)
                                 ''Hawk error, payload hash invalid'' 401, s)
                         else h r (showNat (tokenUid parsedToken)) (w, s)))))"

subsection \<open>getcid and getbso\<close>

text \<open>
  \<^verbatim>\<open>
  func (c *Context) getcid(r, uid string, automake bool) (cId int, err error) {
      collection := mux.Vars(r)["collection"]
      if !syncstorage.CollectionNameOk(collection) {
          err = syncstorage.ErrInvalidCollectionName
          return
      }
      cId, err = c.Dispatch.GetCollectionId(uid, collection)
      if err == nil { return }
      if err == syncstorage.ErrNotFound {
          if automake { cId, err = c.Dispatch.CreateCollection(uid, collection) }
      }
      return
  }
  \<close>
  With an invalid name the named result \<^verbatim>\<open>cId\<close> is still zero.
\<close>

definition getcid ::
  "'s Dispatch \<Rightarrow> request \<Rightarrow> string \<Rightarrow> bool \<Rightarrow> 's \<Rightarrow> (int \<times> storageError option) \<times> 's" where
  "getcid D r u automake s =
     (let collection = Vars r ''collection''
      in if \<not> CollectionNameOk D collection then ((0, Some ErrInvalidCollectionName), s)
         else
           (case GetCollectionId D s u collection of
              (cId, None) \<Rightarrow> ((cId, None), s)
            | (cId, Some e) \<Rightarrow>
                if e = ErrNotFound \<and> automake then CreateCollection D s u collection
                else ((cId, Some e), s)))"

text \<open>
  \<^verbatim>\<open>
  func (c *Context) getbso(w, r) (bId string, ok bool) {
      bId, ok = mux.Vars(r)["bsoId"]
      if !ok || !syncstorage.BSOIdOk(bId) { http.Error(w, "Invalid bso ID", http.StatusBadRequest) }
      return
  }
  \<close>
  The result \<^verbatim>\<open>ok\<close> is that of the map lookup.
\<close>

definition getbso :: "'s Dispatch \<Rightarrow> request \<Rightarrow> response \<Rightarrow> (string \<times> bool) \<times> response" where
  "getbso D r w =
     (case muxVars r ''bsoId'' of
        None \<Rightarrow> (([], False), http_Error w ''Invalid bso ID'' 400)
      | Some bId \<Rightarrow>
          ((bId, True), if BSOIdOk D bId then w else http_Error w ''Invalid bso ID'' 400))"

subsection \<open>The collection handlers\<close>

text \<open>
  \<^verbatim>\<open>
  func (c *Context) hCollectionGET(w, r, uid string) {
      cId, err := c.getcid(r, uid, false)
      if err != nil {
          if err == syncstorage.ErrNotFound {
              w.Header().Set("Content-Type", "application/json")
              w.Write([]byte("[]"))
              return
          } else {
              c.Error(w, r, err)
              return
          }
      }
      ... // the query parameters, GetBSOs and the response
  }
  \<close>
  What follows a successful \<^verbatim>\<open>getcid\<close> (the parsing of the query parameters, the
  call of \<^verbatim>\<open>GetBSOs\<close> and the response it shapes) is the parameter \<open>query\<close>.
\<close>

definition hCollectionGET ::
  "'s Dispatch \<Rightarrow> (request \<Rightarrow> string \<Rightarrow> int \<Rightarrow> response \<times> 's \<Rightarrow> response \<times> 's)
     \<Rightarrow> request \<Rightarrow> string \<Rightarrow> response \<times> 's \<Rightarrow> response \<times> 's" where
  "hCollectionGET D query r u ws =
     (case ws of (w, s) \<Rightarrow>
        (case getcid D r u False s of
           ((cId, Some e), s1) \<Rightarrow>
             if e = ErrNotFound
             then (Write ''[]'' (Header_Set ''Content-Type'' ''application/json'' w), s1)
             else (Context_Error w, s1)
         | ((cId, None), s1) \<Rightarrow> query r u cId (w, s1)))"

text \<open>
  \<^verbatim>\<open>bytes.Split(body, "\n")\<close>: the pieces between the separators, one more than
  there are separators.
\<close>

fun splitOn :: "char \<Rightarrow> string \<Rightarrow> string list" where
  "splitOn c [] = [[]]"
| "splitOn c (x # xs) =
     (if x = c then [] # splitOn c xs
      else (case splitOn c xs of [] \<Rightarrow> [[x]] | piece # pieces \<Rightarrow> (x # piece) # pieces))"

text \<open>
  The test \<^verbatim>\<open>strings.TrimSpace(string(data)) == ""\<close>: the line consists of white
  space only. \<^verbatim>\<open>TrimSpace\<close> reads the string as UTF-8 and strips the runes for which
  \<^verbatim>\<open>unicode.IsSpace\<close> holds: tab, newline, vertical tab, form feed, carriage return,
  space, U+0085, U+00A0, U+1680, U+2000 to U+200A, U+2028, U+2029, U+202F, U+205F and
  U+3000. \<open>spaceRunes\<close> are their encodings. \<open>onlySpace k s\<close> reads \<open>s\<close> with \<open>k\<close>
  bytes of the current rune still to skip; a byte that starts no white-space rune (any
  other rune, or invalid UTF-8) ends the test.
\<close>

definition spaceRunes :: "string list" where
  "spaceRunes =
     [[CHR 0x09], [CHR 0x0A], [CHR 0x0B], [CHR 0x0C], [CHR 0x0D], [CHR 0x20],
      [CHR 0xC2, CHR 0x85], [CHR 0xC2, CHR 0xA0],
      [CHR 0xE1, CHR 0x9A, CHR 0x80],
      [CHR 0xE2, CHR 0x80, CHR 0x80], [CHR 0xE2, CHR 0x80, CHR 0x81],
      [CHR 0xE2, CHR 0x80, CHR 0x82], [CHR 0xE2, CHR 0x80, CHR 0x83],
      [CHR 0xE2, CHR 0x80, CHR 0x84], [CHR 0xE2, CHR 0x80, CHR 0x85],
      [CHR 0xE2, CHR 0x80, CHR 0x86], [CHR 0xE2, CHR 0x80, CHR 0x87],
      [CHR 0xE2, CHR 0x80, CHR 0x88], [CHR 0xE2, CHR 0x80, CHR 0x89],
      [CHR 0xE2, CHR 0x80, CHR 0x8A],
      [CHR 0xE2, CHR 0x80, CHR 0xA8], [CHR 0xE2, CHR 0x80, CHR 0xA9],
      [CHR 0xE2, CHR 0x80, CHR 0xAF], [CHR 0xE2, CHR 0x81, CHR 0x9F],
      [CHR 0xE3, CHR 0x80, CHR 0x80]]"

fun onlySpace :: "nat \<Rightarrow> string \<Rightarrow> bool" where
  "onlySpace k [] = True"
| "onlySpace (Suc k) (c # cs) = onlySpace k cs"
| "onlySpace 0 (c # cs) =
     (case find (\<lambda>e. take (length e) (c # cs) = e) spaceRunes of
        None \<Rightarrow> False
      | Some e \<Rightarrow> onlySpace (length e - 1) cs)"

definition trimsToEmpty :: "string \<Rightarrow> bool" where
  "trimsToEmpty s = onlySpace 0 s"

text \<open>
  The loop over the lines of an \<^verbatim>\<open>application/newlines\<close> body: \<open>i\<close> is the index of
  the line, \<open>posted\<close> the items appended so far. Each item is the address of a
  variable of the loop body, never nil.
\<close>

fun parseLines ::
  "codec \<Rightarrow> nat \<Rightarrow> string list \<Rightarrow> PutBSOInput option list \<Rightarrow> string + PutBSOInput option list" where
  "parseLines cd i [] posted = Inr posted"
| "parseLines cd i (d # ds) posted =
     (if trimsToEmpty d then parseLines cd (Suc i) ds posted
      else
        (case UnmarshalBSO cd d of
           Inr bso \<Rightarrow> parseLines cd (Suc i) ds (posted @ [Some bso])
         | Inl err \<Rightarrow>
             Inl (''Invalid JSON posted for item: '' @ showNat i @ '', '' @ err @ '', '' @ d)))"

definition parsePosted :: "codec \<Rightarrow> string \<Rightarrow> string \<Rightarrow> string + PutBSOInput option list" where
  "parsePosted cd ct bytes =
     (if ct = ''application/json'' \<or> ct = ''text/plain'' then
        (case DecodePost cd bytes of
           None \<Rightarrow> Inl ''Invalid JSON posted''
         | Some posted \<Rightarrow> Inr posted)
      else parseLines cd 0 (splitOn newline bytes) [])"

text \<open>
  \<^verbatim>\<open>
  for _, b := range posted {
      if !syncstorage.BSOIdOk(b.Id) {
          http.Error(w, "Invalid or missing Id in data", http.StatusBadRequest)
          return
      }
      if b.Payload != nil && len(*b.Payload) > MAX_BSO_PAYLOAD_SIZE {
          http.Error(w, fmt.Sprintf("%s payload greater than max of %d bytes", b.Id, MAX_BSO_PAYLOAD_SIZE), http.StatusBadRequest)
          return
      }
  }
  \<close>
  The loop variable \<open>b\<close> is a pointer, and \<^verbatim>\<open>b.Id\<close> dereferences it with no test
  for nil: on a nil item the handler panics. \<open>validatePosted\<close> is \<open>None\<close> for that
  panic, \<open>Some (Inl msg)\<close> with the message of the first item that fails a test, and
  \<open>Some (Inr items)\<close> with the records the pointers refer to when the loop runs to its
  end.
\<close>

definition payloadTooBig :: "PutBSOInput \<Rightarrow> bool" where
  "payloadTooBig b =
     (case bso_Payload b of None \<Rightarrow> False | Some pl \<Rightarrow> length pl > MAX_BSO_PAYLOAD_SIZE)"

fun validatePosted ::
  "'s Dispatch \<Rightarrow> PutBSOInput option list \<Rightarrow> (string + PutBSOInput list) option" where
  "validatePosted D [] = Some (Inr [])"
| "validatePosted D (None # bs) = None"
| "validatePosted D (Some b # bs) =
     (if \<not> BSOIdOk D (bso_Id b) then Some (Inl ''Invalid or missing Id in data'')
      else if payloadTooBig b
      then Some (Inl (bso_Id b @ '' payload greater than max of ''
                      @ showNat MAX_BSO_PAYLOAD_SIZE @ '' bytes''))
      else
        (case validatePosted D bs of
           None \<Rightarrow> None
         | Some (Inl msg) \<Rightarrow> Some (Inl msg)
         | Some (Inr items) \<Rightarrow> Some (Inr (b # items))))"

definition ttlToMillis :: "PutBSOInput \<Rightarrow> PutBSOInput" where
  "ttlToMillis b =
     (case bso_TTL b of None \<Rightarrow> b | Some t \<Rightarrow> b\<lparr>bso_TTL := Some (mul64 t 1000)\<rparr>)"

text \<open>
  The document \<^verbatim>\<open>&PostResults{Modified: m, Success: ..., Failed: ...}\<close> marshals to.
\<close>

definition postResultsJSON :: "string \<Rightarrow> PostResults \<Rightarrow> json" where
  "postResultsJSON m res =
     JObject [(''modified'', JString m),
              (''success'', JArray (map JString (res_Success res))),
              (''failed'', JObject (map (\<lambda>(k, reasons). (k, JArray (map JString reasons)))
                                        (res_Failed res)))]"

text \<open>
  \<^verbatim>\<open>
  func (c *Context) hCollectionPOST(w, r, uid string) {
      ct := r.Header.Get("Content-Type")
      if ct != "application/json" && ct != "text/plain" && ct != "application/newlines" {
          http.Error(w, "Not acceptable Content-Type", http.StatusUnsupportedMediaType); return
      }
      ... // decode the body into posted
      if len(posted) > MAX_BSO_PER_POST_REQUEST {
          http.Error(w, fmt.Sprintf("Exceeded %d BSO per request", MAX_BSO_PER_POST_REQUEST),
              http.StatusRequestEntityTooLarge); return
      }
      ... // validate basic bso data
      cId, err := c.getcid(r, uid, true)
      if err != nil {
          if err == syncstorage.ErrInvalidCollectionName { http.Error(w, err.Error(), http.StatusBadRequest) }
          else { c.Error(w, r, err) }
          return
      }
      ... // TTL to milliseconds
      results, err := c.Dispatch.PostBSOs(uid, cId, posted)
      if err != nil { c.Error(w, r, err) } else {
          m := syncstorage.ModifiedToString(results.Modified)
          w.Header().Set("X-Last-Modified", m)
          c.JsonNewline(w, r, &PostResults{Modified: m, Success: results.Success, Failed: results.Failed})
      }
  }
  \<close>
\<close>

text \<open>
  The result is \<open>None\<close> when the handler panics (the nil dereference in the
  validation loop; the server aborts the request and the handler writes no response),
  and otherwise the response and the store it leaves.
\<close>

definition hCollectionPOST ::
  "'s Dispatch \<Rightarrow> codec \<Rightarrow> request \<Rightarrow> string \<Rightarrow> response \<times> 's \<Rightarrow> (response \<times> 's) option" where
  "hCollectionPOST D cd r u ws =
     (case ws of (w, s) \<Rightarrow>
        (let ct = Header_Get r ''Content-Type''
         in if ct \<noteq> ''application/json'' \<and> ct \<noteq> ''text/plain'' \<and> ct \<noteq> ''application/newlines''
            then Some (http_Error w ''Not acceptable Content-Type'' 415, s)
            else
              (case parsePosted cd ct (reqBody r) of
                 Inl msg \<Rightarrow> Some (http_Error w msg 400, s)
               | Inr posted \<Rightarrow>
                   if length posted > MAX_BSO_PER_POST_REQUEST
                   then Some (http_Error w (''Exceeded '' @ showNat MAX_BSO_PER_POST_REQUEST
                                             @ '' BSO per request'') 413, s)
                   else
                     (case validatePosted D posted of
                        None \<Rightarrow> None
                      | Some (Inl msg) \<Rightarrow> Some (http_Error w msg 400, s)
                      | Some (Inr items) \<Rightarrow>
                          (case getcid D r u True s of
                             ((cId, Some e), s1) \<Rightarrow>
                               if e = ErrInvalidCollectionName
                               then Some (http_Error w (ErrorText D e) 400, s1)
                               else Some (Context_Error w, s1)
                           | ((cId, None), s1) \<Rightarrow>
                               (case PostBSOs D s1 u cId (map ttlToMillis items) of
                                  ((results, Some e), s2) \<Rightarrow> Some (Context_Error w, s2)
                                | ((results, None), s2) \<Rightarrow>
                                    (let m = ModifiedToString D (res_Modified results)
                                     in Some (JsonNewline r (Inr (postResultsJSON m results))
                                                (Header_Set ''X-Last-Modified'' m w), s2))))))))"

subsection \<open>The BSO handlers\<close>

text \<open>
  \<^verbatim>\<open>
  func (c *Context) hBsoGET(w, r, uid string) {
      if bId, ok = c.getbso(w, r); !ok { return }
      cId, err = c.getcid(r, uid, false)
      if err == nil {
          bso, err = c.Dispatch.GetBSO(uid, cId, bId)
          if err == nil { c.JsonNewline(w, r, bso); return }
      }
      if err == syncstorage.ErrNotFound { http.NotFound(w, r); return } else { c.Error(w, r, err) }
  }
  \<close>
\<close>

definition notFoundOrError :: "storageError \<Rightarrow> response \<Rightarrow> response" where
  "notFoundOrError e w = (if e = ErrNotFound then http_NotFound w else Context_Error w)"

definition hBsoGET ::
  "'s Dispatch \<Rightarrow> request \<Rightarrow> string \<Rightarrow> response \<times> 's \<Rightarrow> response \<times> 's" where
  "hBsoGET D r u ws =
     (case ws of (w, s) \<Rightarrow>
        (case getbso D r w of
           ((bId, ok), w1) \<Rightarrow>
             if \<not> ok then (w1, s)
             else
               (case getcid D r u False s of
                  ((cId, None), s1) \<Rightarrow>
                    (case GetBSO D s1 u cId bId of
                       (bso, None) \<Rightarrow> (JsonNewline r (Inr bso) w1, s1)
                     | (bso, Some e) \<Rightarrow> (notFoundOrError e w1, s1))
                | ((cId, Some e), s1) \<Rightarrow> (notFoundOrError e w1, s1))))"

text \<open>
  \<^verbatim>\<open>
  func (c *Context) hBsoPUT(w, r, uid string) {
      if bId, ok = c.getbso(w, r); !ok { return }
      var bso struct { Payload *string; SortIndex *int; TTL *int }
      cId, err = c.getcid(r, uid, true)
      if err == syncstorage.ErrNotFound { return }
      decoder := json.NewDecoder(r.Body)
      err = decoder.Decode(&bso)
      if err != nil { http.Error(w, "Invalid JSON", http.StatusBadRequest); return }
      if bso.TTL != nil { tmp := *bso.TTL * 1000; bso.TTL = &tmp }
      modified, err = c.Dispatch.PutBSO(uid, cId, bId, bso.Payload, bso.SortIndex, bso.TTL)
      if err != nil {
          if err == syncstorage.ErrPayloadTooBig {
              http.Error(w, http.StatusText(http.StatusRequestEntityTooLarge), http.StatusRequestEntityTooLarge)
              return
          }
          http.Error(w, err.Error(), http.StatusBadRequest)
          return
      }
      m := syncstorage.ModifiedToString(modified)
      w.Header().Set("Content-Type", "text/plain")
      w.Header().Set("X-Last-Modified", m)
      w.Write([]byte(m))
  }
  \<close>
  \<open>putResponse\<close> is the part after the call of \<^verbatim>\<open>PutBSO\<close>.
\<close>

definition putResponse :: "'s Dispatch \<Rightarrow> int \<times> storageError option \<Rightarrow> response \<Rightarrow> response" where
  "putResponse D res w =
     (case res of
        (modified, Some e) \<Rightarrow>
          if e = ErrPayloadTooBig then http_Error w ''Request Entity Too Large'' 413
          else http_Error w (ErrorText D e) 400
      | (modified, None) \<Rightarrow>
          (let m = ModifiedToString D modified
           in Write m (Header_Set ''X-Last-Modified'' m (Header_Set ''Content-Type'' ''text/plain'' w))))"

definition hBsoPUT ::
  "'s Dispatch \<Rightarrow> codec \<Rightarrow> request \<Rightarrow> string \<Rightarrow> response \<times> 's \<Rightarrow> response \<times> 's" where
  "hBsoPUT D cd r u ws =
     (case ws of (w, s) \<Rightarrow>
        (case getbso D r w of
           ((bId, ok), w1) \<Rightarrow>
             if \<not> ok then (w1, s)
             else
               (case getcid D r u True s of
                  ((cId, err), s1) \<Rightarrow>
                    if err = Some ErrNotFound then (w1, s1)
                    else
                      (case DecodePut cd (reqBody r) of
                         None \<Rightarrow> (http_Error w1 ''Invalid JSON'' 400, s1)
                       | Some (payload, sortIndex, ttl) \<Rightarrow>
                           (case PutBSO D s1 u cId bId payload sortIndex
                                   (map_option (\<lambda>t. mul64 t 1000) ttl) of
                              (res, s2) \<Rightarrow> (putResponse D res w1, s2))))))"

subsection \<open>An instance of the parameters\<close>

text \<open>
  Modelled from the spec: a storage engine in memory, an instance of \<open>Dispatch\<close> for
  evaluating the handlers on concrete requests (package \<^verbatim>\<open>syncstorage\<close> is not among
  the sources). The spec says: collection names match
  \<^verbatim>\<open>^[A-Za-z0-9_-]{1,32}$\<close>; a BSO id has 1 to 64 characters and is URL-safe;
  \<^verbatim>\<open>(uid, name) -> collection_id\<close>, the ids dense per-uid integers;
  \<^verbatim>\<open>GetBSO(cid, bid) -> BSO | NotFound\<close>;
  \<^verbatim>\<open>PutBSO(cid, bid, payload?, sortindex?, ttl_ms?) -> modified_ms\<close>, with
  \<^verbatim>\<open>PayloadTooBig\<close> for a payload over 262,144 bytes;
  \<^verbatim>\<open>PostBSOs(cid, items[]) -> {modified_ms, success[], failed{id->reasons[]}}\<close>; a
  modified time is rendered as seconds with two decimals.
\<close>

record memStore =
  collections :: "(string \<times> string \<times> int) list"
  bsos :: "(string \<times> int \<times> string \<times> string option) list"
  clock :: int

definition nameChars :: string where
  "nameChars = ''ABCDEFGHIJKLMNOPQRSTUVWXYZabcdefghijklmnopqrstuvwxyz0123456789_-''"

definition memCollectionNameOk :: "string \<Rightarrow> bool" where
  "memCollectionNameOk name =
     (1 \<le> length name \<and> length name \<le> 32 \<and> list_all (\<lambda>c. List.member nameChars c) name)"

definition memBSOIdOk :: "string \<Rightarrow> bool" where
  "memBSOIdOk bid =
     (1 \<le> length bid \<and> length bid \<le> 64
      \<and> list_all (\<lambda>c. List.member (nameChars @ ''.~'') c) bid)"

definition memErrorText :: "storageError \<Rightarrow> string" where
  "memErrorText e =
     (case e of
        ErrNotFound \<Rightarrow> ''Not Found''
      | ErrInvalidCollectionName \<Rightarrow> ''Invalid collection name''
      | ErrPayloadTooBig \<Rightarrow> ''Payload too big''
      | ErrStorage msg \<Rightarrow> msg)"

definition memModifiedToString :: "int \<Rightarrow> string" where
  "memModifiedToString m =
     showInt (m div 1000) @ ''.'' @ showNat (nat (m mod 1000) div 100)
       @ showNat (nat (m mod 1000) div 10 mod 10)"

definition memGetCollectionId :: "memStore \<Rightarrow> string \<Rightarrow> string \<Rightarrow> int \<times> storageError option" where
  "memGetCollectionId s u name =
     (case find (\<lambda>(u', name', cid). u' = u \<and> name' = name) (collections s) of
        Some (u', name', cid) \<Rightarrow> (cid, None)
      | None \<Rightarrow> (0, Some ErrNotFound))"

definition memCreateCollection ::
  "memStore \<Rightarrow> string \<Rightarrow> string \<Rightarrow> (int \<times> storageError option) \<times> memStore" where
  "memCreateCollection s u name =
     (let cid = 1 + int (length (filter (\<lambda>(u', name', cid'). u' = u) (collections s)))
      in ((cid, None), s\<lparr>collections := collections s @ [(u, name, cid)]\<rparr>))"

definition memGetBSO :: "memStore \<Rightarrow> string \<Rightarrow> int \<Rightarrow> string \<Rightarrow> json \<times> storageError option" where
  "memGetBSO s u cid bid =
     (case find (\<lambda>(u', cid', bid', pl). u' = u \<and> cid' = cid \<and> bid' = bid) (bsos s) of
        Some (u', cid', bid', pl) \<Rightarrow>
          (JObject [(''id'', JString bid),
                    (''payload'', (case pl of None \<Rightarrow> JNull | Some text \<Rightarrow> JString text))], None)
      | None \<Rightarrow> (JNull, Some ErrNotFound))"

definition memPutBSO ::
  "memStore \<Rightarrow> string \<Rightarrow> int \<Rightarrow> string \<Rightarrow> string option \<Rightarrow> int option \<Rightarrow> int option
     \<Rightarrow> (int \<times> storageError option) \<times> memStore" where
  "memPutBSO s u cid bid pl sortIndex ttl =
     (if (case pl of None \<Rightarrow> False | Some text \<Rightarrow> length text > MAX_BSO_PAYLOAD_SIZE)
      then ((0, Some ErrPayloadTooBig), s)
      else ((clock s, None), s\<lparr>bsos := (u, cid, bid, pl) # bsos s\<rparr>))"

definition memPostBSOs ::
  "memStore \<Rightarrow> string \<Rightarrow> int \<Rightarrow> PutBSOInput list
     \<Rightarrow> (PostResults \<times> storageError option) \<times> memStore" where
  "memPostBSOs s u cid items =
     ((\<lparr>res_Modified = clock s, res_Success = map bso_Id items, res_Failed = []\<rparr>, None),
      s\<lparr>bsos := map (\<lambda>b. (u, cid, bso_Id b, bso_Payload b)) items @ bsos s\<rparr>)"

definition memDispatch :: "memStore Dispatch" where
  "memDispatch =
     \<lparr>BSOIdOk = memBSOIdOk,
      CollectionNameOk = memCollectionNameOk,
      ErrorText = memErrorText,
      ModifiedToString = memModifiedToString,
      GetCollectionId = memGetCollectionId,
      CreateCollection = memCreateCollection,
      GetBSO = memGetBSO,
      PutBSO = memPutBSO,
      PostBSOs = memPostBSOs\<rparr>"

definition emptyStore :: memStore where
  "emptyStore = \<lparr>collections = [], bsos = [], clock = 1477872000120\<rparr>"

text \<open>
  Requests to evaluate the handlers on. The decoders of \<open>testCodec\<close> know the bodies
  of these requests only: the body of \<open>twoItemsPost\<close> is a JSON array of two items
  with the ids \<^verbatim>\<open>ok-id\<close> and \<^verbatim>\<open>bad id\<close>, that of \<open>nullItemPost\<close> is the array of
  \<^verbatim>\<open>null\<close> and the item with the id \<^verbatim>\<open>bad id\<close>, that of \<open>manyItemsPost\<close> stands for
  an array of 101 items, that of \<open>putRequest\<close> is an object with a payload, and that of
  \<open>brokenPut\<close> is not JSON.
\<close>

definition okItem :: PutBSOInput where
  "okItem = \<lparr>bso_Id = ''ok-id'', bso_Payload = Some ''a'', bso_SortIndex = None, bso_TTL = None\<rparr>"

definition badItem :: PutBSOInput where
  "badItem = \<lparr>bso_Id = ''bad id'', bso_Payload = Some ''b'', bso_SortIndex = None, bso_TTL = None\<rparr>"

definition twoItemsBody :: string where
  "twoItemsBody =
     encodeJSON (JArray [JObject [(''id'', JString ''ok-id''), (''payload'', JString ''a'')],
                         JObject [(''id'', JString ''bad id''), (''payload'', JString ''b'')]])"

definition nullItemBody :: string where
  "nullItemBody =
     encodeJSON (JArray [JNull,
                         JObject [(''id'', JString ''bad id''), (''payload'', JString ''b'')]])"

definition putBody :: string where
  "putBody = encodeJSON (JObject [(''payload'', JString ''x'')])"

definition testCodec :: codec where
  "testCodec =
     \<lparr>DecodePost = (\<lambda>bytes. if bytes = twoItemsBody then Some [Some okItem, Some badItem]
                              else if bytes = nullItemBody then Some [None, Some badItem]
                              else if bytes = ''101 items'' then Some (replicate 101 (Some okItem))
                              else None),
      DecodePut = (\<lambda>bytes. if bytes = putBody then Some (Some ''x'', None, None) else None),
      UnmarshalBSO = (\<lambda>line. Inl ''unexpected input'')\<rparr>"

definition twoItemsPost :: request where
  "twoItemsPost =
     \<lparr>muxVars = [''uid'' \<mapsto> ''42'', ''collection'' \<mapsto> ''bookmarks''],
      reqHeader = [''Content-Type'' \<mapsto> ''application/json''],
      reqBody = twoItemsBody\<rparr>"

definition nullItemPost :: request where
  "nullItemPost =
     \<lparr>muxVars = [''uid'' \<mapsto> ''42'', ''collection'' \<mapsto> ''bookmarks''],
      reqHeader = [''Content-Type'' \<mapsto> ''application/json''],
      reqBody = nullItemBody\<rparr>"

definition manyItemsPost :: request where
  "manyItemsPost =
     \<lparr>muxVars = [''uid'' \<mapsto> ''42'', ''collection'' \<mapsto> ''bookmarks''],
      reqHeader = [''Content-Type'' \<mapsto> ''application/json''],
      reqBody = ''101 items''\<rparr>"

definition unknownGet :: request where
  "unknownGet =
     \<lparr>muxVars = [''uid'' \<mapsto> ''42'', ''collection'' \<mapsto> ''unknown'', ''bsoId'' \<mapsto> ''id''],
      reqHeader = [''Accept'' \<mapsto> ''application/json''],
      reqBody = []\<rparr>"

definition brokenPut :: request where
  "brokenPut =
     \<lparr>muxVars = [''uid'' \<mapsto> ''42'', ''collection'' \<mapsto> ''bookmarks'', ''bsoId'' \<mapsto> ''aaa''],
      reqHeader = [''Accept'' \<mapsto> ''application/json''],
      reqBody = ''{not json''\<rparr>"

definition badNamePut :: request where
  "badNamePut =
     \<lparr>muxVars = [''uid'' \<mapsto> ''42'', ''collection'' \<mapsto> ''bad!name'', ''bsoId'' \<mapsto> ''aaa''],
      reqHeader = [''Accept'' \<mapsto> ''application/json''],
      reqBody = putBody\<rparr>"

definition newlinesGet :: request where
  "newlinesGet =
     \<lparr>muxVars = [''uid'' \<mapsto> ''42'', ''collection'' \<mapsto> ''bookmarks''],
      reqHeader = [''Accept'' \<mapsto> ''application/newlines''],
      reqBody = []\<rparr>"

text \<open>
  A token server with two secrets: the token \<^verbatim>\<open>tok\<close> was signed with the secret
  \<^verbatim>\<open>current\<close> for the uid 42; under every other secret it is invalid. The Hawk
  header parses, carries no payload hash, and its MAC is valid.
\<close>

definition rotatedLib :: hawkLib where
  "rotatedLib =
     \<lparr>NewAuthFromRequest = (\<lambda>r. Inr \<lparr>CredentialsID = ''tok'', hasHash = False\<rparr>),
      ParseToken = (\<lambda>secret cid.
         if secret = ''current'' \<and> cid = ''tok''
         then (\<lparr>tokenUid = 42, DerivedSecret = ''derived''\<rparr>, None)
         else (zeroToken, Some ErrTokenInvalid)),
      Valid = (\<lambda>auth key. None),
      ValidHash = (\<lambda>auth contentType content. True)\<rparr>"

definition currentFirst :: Context where
  "currentFirst = \<lparr>Secrets = [''current'', ''old''], DisableHawk = False, MaxBSOGetLimit = 0\<rparr>"

definition currentLast :: Context where
  "currentLast = \<lparr>Secrets = [''old'', ''current''], DisableHawk = False, MaxBSOGetLimit = 0\<rparr>"

section \<open>Properties of the handler pool\<close>

lemma slice_one:
  assumes "0 < k" and "k \<le> int (length s)"
  shows "slice s (k - 1) k = Some [s ! nat (k - 1)]"
proof -
  from assms have "nat (k - 1) < length s" by linarith
  then have "take (Suc 0) (drop (nat (k - 1)) s) = [s ! nat (k - 1)]"
    by (simp add: take_Suc_conv_app_nth)
  with assms show ?thesis by (simp add: slice_def)
qed

lemma slice_back:
  assumes "Suc j \<le> length u"
  shows "slice u (int (length u) - int (Suc j)) (int (length u) - int j)
           = Some [u ! (length u - Suc j)]"
proof -
  have "slice u ((int (length u) - int j) - 1) (int (length u) - int j)
          = Some [u ! nat ((int (length u) - int j) - 1)]"
    using assms by (intro slice_one) linarith+
  moreover have "nat ((int (length u) - int j) - 1) = length u - Suc j"
    using assms by linarith
  moreover have "(int (length u) - int j) - 1 = int (length u) - int (Suc j)"
    by simp
  ultimately show ?thesis by simp
qed

lemma TwoLevelPath_long:
  "4 \<le> length u \<Longrightarrow>
   TwoLevelPath u = Some [[u ! (length u - 1), u ! (length u - 2)],
                          [u ! (length u - 3), u ! (length u - 4)]]"
  using slice_back[of 0 u] slice_back[of 1 u] slice_back[of 2 u] slice_back[of 3 u]
  by (simp add: TwoLevelPath_def Let_def eval_nat_numeral)

lemma TwoLevelPath_short:
  "\<not> 4 \<le> length u \<Longrightarrow> 2 \<le> length u \<Longrightarrow>
   TwoLevelPath u = Some [[u ! (length u - 1), u ! (length u - 2)]]"
  using slice_back[of 0 u] slice_back[of 1 u]
  by (simp add: TwoLevelPath_def Let_def eval_nat_numeral)

lemma TwoLevelPath_tiny:
  "\<not> 2 \<le> length u \<Longrightarrow> TwoLevelPath u = Some []"
  by (simp add: TwoLevelPath_def Let_def)

text \<open>
  Claim C6. \<open>TwoLevelPath\<close> is total: no slice is out of range, whatever the length
  of the uid. For a uid of length \<open>L\<close> it returns the two strings
  \<open>uid[L-1] uid[L-2]\<close> and \<open>uid[L-3] uid[L-4]\<close> when \<open>L \<ge> 4\<close>, the first of them
  alone when \<open>2 \<le> L < 4\<close>, and the empty list when \<open>L < 2\<close>; and
  \<open>TwoLevelPath "12345678" = ["87", "65"]\<close>.
\<close>

theorem TwoLevelPath_total:
  "TwoLevelPath u =
     Some (if 4 \<le> length u
           then [[u ! (length u - 1), u ! (length u - 2)],
                 [u ! (length u - 3), u ! (length u - 4)]]
           else if 2 \<le> length u
           then [[u ! (length u - 1), u ! (length u - 2)]]
           else [])
   \<and> TwoLevelPath ''12345678'' = Some [''87'', ''65'']"
  by (simp add: TwoLevelPath_long TwoLevelPath_short TwoLevelPath_tiny)

subsection \<open>cleanupHandlers\<close>

lemma popBack_lru [simp]: "lru (pool (popBack w)) = butlast (lru (pool w))"
  by (simp add: popBack_def StopHTTP_def Let_def)

lemma popBack_elements [simp]:
  "elements (pool (popBack w)) = (elements (pool w))(uid (last (lru (pool w))) := None)"
  by (simp add: popBack_def StopHTTP_def Let_def)

lemma popBack_lrumap [simp]:
  "lrumap (pool (popBack w)) = (lrumap (pool w))(uid (last (lru (pool w))) := None)"
  by (simp add: popBack_def StopHTTP_def Let_def)

lemma popBack_stopped [simp]:
  "stoppedHandlers (popBack w) = (stoppedHandlers w)(handler (last (lru (pool w))) := True)"
  by (simp add: popBack_def StopHTTP_def Let_def)

lemma popBack_frame [simp]:
  "nextHandler (popBack w) = nextHandler w"
  "base (pool (popBack w)) = base (pool w)"
  "maxPoolSize (pool (popBack w)) = maxPoolSize (pool w)"
  by (simp_all add: popBack_def StopHTTP_def Let_def)

lemma drop_back:
  assumes "L \<noteq> []"
  shows "drop (length L - Suc k) L = drop (length (butlast L) - k) (butlast L) @ [last L]"
proof -
  from assms obtain xs x where L: "L = xs @ [x]"
    using rev_exhaust by blast
  show ?thesis unfolding L by simp
qed

lemma take_back:
  assumes "L \<noteq> []"
  shows "take (length L - Suc k) L = take (length (butlast L) - k) (butlast L)"
proof -
  from assms obtain xs x where L: "L = xs @ [x]"
    using rev_exhaust by blast
  show ?thesis unfolding L by simp
qed

lemma nat_step: "n < m \<Longrightarrow> nat (m - n) = Suc (nat (m - (n + 1)))"
  for m n :: int
  by simp

lemma cleanupLoop_step:
  "lru (pool w) \<noteq> [] \<Longrightarrow> n < m \<Longrightarrow> cleanupLoop m n w = cleanupLoop m (n + 1) (popBack w)"
  by (rule trans[OF cleanupLoop.simps]) simp

lemma cleanupLoop_empty:
  "lru (pool w) = [] \<Longrightarrow> cleanupLoop m n w = w"
  by (rule trans[OF cleanupLoop.simps]) simp

lemma cleanupLoop_done:
  "\<not> n < m \<Longrightarrow> cleanupLoop m n w = w"
  by (rule trans[OF cleanupLoop.simps]) simp

lemma cleanupLoop_lru:
  "lru (pool (cleanupLoop m n w)) = take (length (lru (pool w)) - nat (m - n)) (lru (pool w))"
proof (induction m n w rule: cleanupLoop.induct)
  case (1 m n w)
  show ?case
  proof (cases "lru (pool w) \<noteq> [] \<and> n < m")
    case True
    then have ne: "lru (pool w) \<noteq> []" and lt: "n < m" by simp_all
    note step = cleanupLoop_step[OF ne lt] and k = nat_step[OF lt]
    show ?thesis
      unfolding step k using "1.IH"[OF True]
      by (simp add: take_back[OF ne])
  next
    case False
    then consider "lru (pool w) = []" | "\<not> n < m" by blast
    then show ?thesis
    proof cases
      case 1
      then show ?thesis by (simp add: cleanupLoop_empty)
    next
      case 2
      then show ?thesis by (simp add: cleanupLoop_done)
    qed
  qed
qed

lemma cleanupLoop_stopped:
  "stoppedHandlers (cleanupLoop m n w) h
     = (stoppedHandlers w h \<or> h \<in> handler ` set (drop (length (lru (pool w)) - nat (m - n)) (lru (pool w))))"
proof (induction m n w rule: cleanupLoop.induct)
  case (1 m n w)
  show ?case
  proof (cases "lru (pool w) \<noteq> [] \<and> n < m")
    case True
    then have ne: "lru (pool w) \<noteq> []" and lt: "n < m" by simp_all
    note step = cleanupLoop_step[OF ne lt] and k = nat_step[OF lt]
    show ?thesis
      unfolding step k using "1.IH"[OF True]
      by (auto simp add: drop_back[OF ne])
  next
    case False
    then consider "lru (pool w) = []" | "\<not> n < m" by blast
    then show ?thesis
    proof cases
      case 1
      then show ?thesis by (simp add: cleanupLoop_empty)
    next
      case 2
      then show ?thesis by (simp add: cleanupLoop_done)
    qed
  qed
qed

lemma cleanupLoop_elements:
  "elements (pool (cleanupLoop m n w)) u
     = (if u \<in> uid ` set (drop (length (lru (pool w)) - nat (m - n)) (lru (pool w))) then None
        else elements (pool w) u)"
proof (induction m n w rule: cleanupLoop.induct)
  case (1 m n w)
  show ?case
  proof (cases "lru (pool w) \<noteq> [] \<and> n < m")
    case True
    then have ne: "lru (pool w) \<noteq> []" and lt: "n < m" by simp_all
    note step = cleanupLoop_step[OF ne lt] and k = nat_step[OF lt]
    show ?thesis
      unfolding step k using "1.IH"[OF True]
      by (auto simp add: drop_back[OF ne])
  next
    case False
    then consider "lru (pool w) = []" | "\<not> n < m" by blast
    then show ?thesis
    proof cases
      case 1
      then show ?thesis by (simp add: cleanupLoop_empty)
    next
      case 2
      then show ?thesis by (simp add: cleanupLoop_done)
    qed
  qed
qed

lemma cleanupLoop_lrumap:
  "lrumap (pool (cleanupLoop m n w)) u
     = (if u \<in> uid ` set (drop (length (lru (pool w)) - nat (m - n)) (lru (pool w))) then None
        else lrumap (pool w) u)"
proof (induction m n w rule: cleanupLoop.induct)
  case (1 m n w)
  show ?case
  proof (cases "lru (pool w) \<noteq> [] \<and> n < m")
    case True
    then have ne: "lru (pool w) \<noteq> []" and lt: "n < m" by simp_all
    note step = cleanupLoop_step[OF ne lt] and k = nat_step[OF lt]
    show ?thesis
      unfolding step k using "1.IH"[OF True]
      by (auto simp add: drop_back[OF ne])
  next
    case False
    then consider "lru (pool w) = []" | "\<not> n < m" by blast
    then show ?thesis
    proof cases
      case 1
      then show ?thesis by (simp add: cleanupLoop_empty)
    next
      case 2
      then show ?thesis by (simp add: cleanupLoop_done)
    qed
  qed
qed

lemma cleanupLoop_frame:
  "nextHandler (cleanupLoop m n w) = nextHandler w
   \<and> base (pool (cleanupLoop m n w)) = base (pool w)
   \<and> maxPoolSize (pool (cleanupLoop m n w)) = maxPoolSize (pool w)"
proof (induction m n w rule: cleanupLoop.induct)
  case (1 m n w)
  show ?case
  proof (cases "lru (pool w) \<noteq> [] \<and> n < m")
    case True
    then have ne: "lru (pool w) \<noteq> []" and lt: "n < m" by simp_all
    note step = cleanupLoop_step[OF ne lt] and k = nat_step[OF lt]
    show ?thesis
      unfolding step k using "1.IH"[OF True]
      by (simp)
  next
    case False
    then consider "lru (pool w) = []" | "\<not> n < m" by blast
    then show ?thesis
    proof cases
      case 1
      then show ?thesis by (simp add: cleanupLoop_empty)
    next
      case 2
      then show ?thesis by (simp add: cleanupLoop_done)
    qed
  qed
qed

lemma cleanupHandlers_lru:
  "lru (pool (cleanupHandlers n w)) = take (length (lru (pool w)) - nat n) (lru (pool w))"
  by (simp add: cleanupHandlers_def cleanupLoop_lru)

lemma cleanupHandlers_stopped:
  "IsStopped (cleanupHandlers n w) h
     = (IsStopped w h \<or> h \<in> handler ` set (drop (length (lru (pool w)) - nat n) (lru (pool w))))"
  by (simp add: cleanupHandlers_def IsStopped_def cleanupLoop_stopped)

lemma cleanupHandlers_elements:
  "elements (pool (cleanupHandlers n w)) u
     = (if u \<in> uid ` set (drop (length (lru (pool w)) - nat n) (lru (pool w))) then None
        else elements (pool w) u)"
  by (simp add: cleanupHandlers_def cleanupLoop_elements)

lemma cleanupHandlers_lrumap:
  "lrumap (pool (cleanupHandlers n w)) u
     = (if u \<in> uid ` set (drop (length (lru (pool w)) - nat n) (lru (pool w))) then None
        else lrumap (pool w) u)"
  by (simp add: cleanupHandlers_def cleanupLoop_lrumap)

lemma cleanupHandlers_frame:
  "nextHandler (cleanupHandlers n w) = nextHandler w"
  "base (pool (cleanupHandlers n w)) = base (pool w)"
  "maxPoolSize (pool (cleanupHandlers n w)) = maxPoolSize (pool w)"
  by (simp_all add: cleanupHandlers_def cleanupLoop_frame)

lemma pool_inv_lookup:
  "pool_inv p \<Longrightarrow> e \<in> set (lru p) \<Longrightarrow> elements p (uid e) = Some e"
  unfolding pool_inv_def list_all_iff by blast

text \<open>In a pool that satisfies the invariants, two LRU nodes with one uid are one node.\<close>

lemma pool_inv_uid_inj:
  assumes "pool_inv p" and "a \<in> set (lru p)" and "b \<in> set (lru p)" and "uid a = uid b"
  shows "a = b"
proof -
  have "elements p (uid a) = Some a" using assms(1,2) by (rule pool_inv_lookup)
  moreover have "elements p (uid b) = Some b" using assms(1,3) by (rule pool_inv_lookup)
  ultimately have "Some a = Some b" using assms(4) by (simp only:)
  then show ?thesis by (simp only: option.inject)
qed

lemma pool_inv_distinct: "pool_inv p \<Longrightarrow> distinct (lru p)"
  unfolding pool_inv_def distinct_map by blast

lemma pool_inv_split:
  assumes inv: "pool_inv p" and a: "a \<in> set (take j (lru p))" and b: "b \<in> set (drop j (lru p))"
  shows "uid a \<noteq> uid b"
proof
  assume eq: "uid a = uid b"
  have a': "a \<in> set (lru p)" using a by (rule in_set_takeD)
  have b': "b \<in> set (lru p)" using b by (rule in_set_dropD)
  have ab: "a = b" using inv a' b' eq by (rule pool_inv_uid_inj)
  have "distinct (take j (lru p) @ drop j (lru p))"
    using pool_inv_distinct[OF inv] by (simp only: append_take_drop_id)
  then have "set (take j (lru p)) \<inter> set (drop j (lru p)) = {}"
    by (simp only: distinct_append)
  with a b show False unfolding ab by blast
qed

lemma cleanupHandlers_pool_inv:
  assumes inv: "pool_inv (pool w)"
  shows "pool_inv (pool (cleanupHandlers n w))"
proof -
  let ?L = "lru (pool w)"
  let ?j = "length ?L - nat n"
  let ?w' = "cleanupHandlers n w"
  have dom_eq: "dom (elements (pool ?w')) = dom (lrumap (pool ?w'))"
  proof (rule set_eqI)
    fix u
    from inv have "dom (elements (pool w)) = dom (lrumap (pool w))"
      unfolding pool_inv_def by blast
    then have d: "(\<exists>y. elements (pool w) u = Some y) = (\<exists>y. lrumap (pool w) u = Some y)"
      by (metis domD domI)
    show "(u \<in> dom (elements (pool ?w'))) = (u \<in> dom (lrumap (pool ?w')))"
      by (simp add: domIff cleanupHandlers_elements cleanupHandlers_lrumap d)
  qed
  have kept: "list_all (\<lambda>e. elements (pool ?w') (uid e) = Some e) (lru (pool ?w'))"
  proof -
    have "elements (pool ?w') (uid e) = Some e" if e: "e \<in> set (take ?j ?L)" for e
    proof -
      from e have "e \<in> set ?L" by (rule in_set_takeD)
      with inv have here: "elements (pool w) (uid e) = Some e"
        by (rule pool_inv_lookup)
      have "uid e \<notin> uid ` set (drop ?j ?L)"
        using pool_inv_split[OF inv e] by blast
      then have "elements (pool ?w') (uid e) = elements (pool w) (uid e)"
        by (simp only: cleanupHandlers_elements if_False)
      with here show ?thesis by (simp only:)
    qed
    then show ?thesis unfolding cleanupHandlers_lru list_all_iff by blast
  qed
  have dist: "distinct (map handler (lru (pool ?w')))"
  proof -
    from inv have "distinct (map handler ?L)" unfolding pool_inv_def by blast
    then have "distinct (take ?j (map handler ?L))" by (rule distinct_take)
    then show ?thesis by (simp only: cleanupHandlers_lru take_map)
  qed
  from dom_eq kept dist show ?thesis unfolding pool_inv_def by blast
qed

lemma stopHandlers_lru: "lru (pool (stopHandlers w)) = []"
  by (simp add: stopHandlers_def cleanupHandlers_lru)

lemma stopHandlers_stopped:
  "e \<in> set (lru (pool w)) \<Longrightarrow> IsStopped (stopHandlers w) (handler e)"
  by (simp add: stopHandlers_def cleanupHandlers_stopped)

lemma stopHandlers_elements:
  assumes "all_on_lru (pool w)"
  shows "elements (pool (stopHandlers w)) = Map.empty"
proof
  fix u
  show "elements (pool (stopHandlers w)) u = None"
  proof (cases "u \<in> uid ` set (lru (pool w))")
    case True
    then show ?thesis by (simp add: stopHandlers_def cleanupHandlers_elements)
  next
    case False
    with assms have "u \<notin> dom (elements (pool w))" unfolding all_on_lru_def by blast
    then have "elements (pool w) u = None" by (simp only: domIff not_not)
    then show ?thesis by (simp add: stopHandlers_def cleanupHandlers_elements)
  qed
qed

lemma stopHandlers_lrumap:
  assumes "pool_inv (pool w)" and "all_on_lru (pool w)"
  shows "lrumap (pool (stopHandlers w)) = Map.empty"
proof -
  have "pool_inv (pool (stopHandlers w))"
    unfolding stopHandlers_def using assms(1) by (rule cleanupHandlers_pool_inv)
  then have "dom (lrumap (pool (stopHandlers w))) = dom (elements (pool (stopHandlers w)))"
    unfolding pool_inv_def by blast
  also have "\<dots> = {}" by (simp only: stopHandlers_elements[OF assms(2)] dom_empty)
  finally show ?thesis by (simp only: dom_eq_empty_conv)
qed

lemma cleanupHandlers_popped:
  "list_all (\<lambda>e. IsStopped (cleanupHandlers n w) (handler e)
                 \<and> elements (pool (cleanupHandlers n w)) (uid e) = None
                 \<and> lrumap (pool (cleanupHandlers n w)) (uid e) = None)
            (drop (length (lru (pool w)) - nat n) (lru (pool w)))"
  unfolding list_all_iff
  by (simp add: cleanupHandlers_stopped cleanupHandlers_elements cleanupHandlers_lrumap)

text \<open>
  Claim C9. In a pool that satisfies the three invariants, \<open>cleanupHandlers n\<close> pops
  the last \<open>n\<close> nodes of the LRU list (all of them when there are fewer, none when
  \<open>n \<le> 0\<close>): the list that is left is the front part; every popped handler is Stopped
  and its uid is gone from \<open>elements\<close> and from the LRU index; no other handler changes
  its state; and the three invariants hold again. \<open>stopHandlers\<close>, which is
  \<open>cleanupHandlers\<close> of the length of the list, leaves the list empty and every handler
  that was on it Stopped, and when every element was on the list, the two maps are empty
  as well.
\<close>

theorem cleanupHandlers_pops_lru_back:
  assumes "pool_inv (pool w)"
  shows "lru (pool (cleanupHandlers n w)) = take (length (lru (pool w)) - nat n) (lru (pool w))
       \<and> list_all (\<lambda>e. IsStopped (cleanupHandlers n w) (handler e)
                        \<and> elements (pool (cleanupHandlers n w)) (uid e) = None
                        \<and> lrumap (pool (cleanupHandlers n w)) (uid e) = None)
                   (drop (length (lru (pool w)) - nat n) (lru (pool w)))
       \<and> IsStopped (cleanupHandlers n w) h
           = (IsStopped w h
              \<or> h \<in> handler ` set (drop (length (lru (pool w)) - nat n) (lru (pool w))))
       \<and> pool_inv (pool (cleanupHandlers n w))
       \<and> lru (pool (stopHandlers w)) = []
       \<and> list_all (\<lambda>e. IsStopped (stopHandlers w) (handler e)) (lru (pool w))
       \<and> (all_on_lru (pool w) \<longrightarrow>
            elements (pool (stopHandlers w)) = Map.empty
            \<and> lrumap (pool (stopHandlers w)) = Map.empty)"
proof -
  have "list_all (\<lambda>e. IsStopped (stopHandlers w) (handler e)) (lru (pool w))"
    unfolding list_all_iff using stopHandlers_stopped by blast
  then show ?thesis
    using assms cleanupHandlers_lru[of n w] cleanupHandlers_popped[of n w]
      cleanupHandlers_stopped[of n w h] cleanupHandlers_pool_inv[of w n]
      stopHandlers_lru[of w] stopHandlers_elements[of w] stopHandlers_lrumap[of w]
    by blast
qed

lemma getElement_fresh:
  assumes "elements (pool w) u = None" and "base (pool w) = ['':memory:'']"
    and "\<not> newDBFails env '':memory:''" and "\<not> int (length (lru (pool w))) > maxPoolSize (pool w)"
  shows "getElement env u w =
     (Inr (\<lparr>uid = u, handler = nextHandler w\<rparr>, True),
      \<lparr>pool = \<lparr>base = base (pool w),
               elements = (elements (pool w))(u \<mapsto> \<lparr>uid = u, handler = nextHandler w\<rparr>),
               lru = \<lparr>uid = u, handler = nextHandler w\<rparr> # lru (pool w),
               lrumap = (lrumap (pool w))(u \<mapsto> \<lparr>uid = u, handler = nextHandler w\<rparr>),
               maxPoolSize = maxPoolSize (pool w)\<rparr>,
       stoppedHandlers = (stoppedHandlers w)(nextHandler w := False),
       nextHandler = Suc (nextHandler w)\<rparr>)"
  using assms
  by (simp add: getElement_def dbFileFor_def evictIfFull_def insertElement_def
      NewSyncUserHandler_def Let_def)

lemma threeUsers_eval:
  "threeUsers =
     \<lparr>pool = \<lparr>base = ['':memory:''],
              elements = [''1'' \<mapsto> \<lparr>uid = ''1'', handler = 0\<rparr>,
                          ''2'' \<mapsto> \<lparr>uid = ''2'', handler = 1\<rparr>,
                          ''3'' \<mapsto> \<lparr>uid = ''3'', handler = 2\<rparr>],
              lru = [\<lparr>uid = ''3'', handler = 2\<rparr>, \<lparr>uid = ''2'', handler = 1\<rparr>,
                     \<lparr>uid = ''1'', handler = 0\<rparr>],
              lrumap = [''1'' \<mapsto> \<lparr>uid = ''1'', handler = 0\<rparr>,
                        ''2'' \<mapsto> \<lparr>uid = ''2'', handler = 1\<rparr>,
                        ''3'' \<mapsto> \<lparr>uid = ''3'', handler = 2\<rparr>],
              maxPoolSize = 64\<rparr>,
      stoppedHandlers = (\<lambda>h. False)(0 := False, 1 := False, 2 := False),
      nextHandler = 3\<rparr>"
  by (simp add: threeUsers_def memoryPool_def newWorld_def newHandlerPool_def memoryEnv_def
      getElement_fresh eval_nat_numeral)

theorem cleanupHandlers_pops_lru_back_witness:
  "pool_inv (pool threeUsers) \<and> all_on_lru (pool threeUsers)
   \<and> lru (pool (cleanupHandlers 2 threeUsers)) = [\<lparr>uid = ''3'', handler = 2\<rparr>]
   \<and> IsStopped (cleanupHandlers 2 threeUsers) 0
   \<and> IsStopped (cleanupHandlers 2 threeUsers) 1
   \<and> \<not> IsStopped (cleanupHandlers 2 threeUsers) 2
   \<and> elements (pool (cleanupHandlers 2 threeUsers)) ''1'' = None
   \<and> lrumap (pool (cleanupHandlers 2 threeUsers)) ''2'' = None
   \<and> pool_inv (pool (cleanupHandlers 2 threeUsers))
   \<and> lru (pool (stopHandlers threeUsers)) = []
   \<and> elements (pool (stopHandlers threeUsers)) = Map.empty
   \<and> lrumap (pool (stopHandlers threeUsers)) = Map.empty"
proof -
  have inv: "pool_inv (pool threeUsers)"
    by (simp add: threeUsers_eval pool_inv_def)
  have onlru: "all_on_lru (pool threeUsers)"
    by (simp add: threeUsers_eval all_on_lru_def)
  have L: "lru (pool threeUsers) = [\<lparr>uid = ''3'', handler = 2\<rparr>, \<lparr>uid = ''2'', handler = 1\<rparr>,
                     \<lparr>uid = ''1'', handler = 0\<rparr>]"
    by (simp add: threeUsers_eval)
  have S: "\<not> IsStopped threeUsers 2"
    by (simp add: threeUsers_eval IsStopped_def)
  from cleanupHandlers_pops_lru_back[OF inv, of 2 2] inv onlru S show ?thesis
    by (simp add: L)
qed

subsection \<open>getElement\<close>

lemma getElement_found_stopped:
  assumes "elements (pool w) u = Some e" and "IsStopped w (handler e)"
  shows "getElement env u w = (Inl ErrElementStopped, w)"
  using assms by (simp add: getElement_def)

lemma getElement_returns_running:
  assumes "getElement env u w = (Inr (e, created), w')"
  shows "\<not> IsStopped w' (handler e)"
proof (cases "elements (pool w) u")
  case None
  show ?thesis
  proof (cases "dbFileFor env (pool w) u")
    case (Inl err)
    with None assms show ?thesis by (simp add: getElement_def)
  next
    case (Inr dbFile)
    with None assms show ?thesis
      by (auto simp add: getElement_def Let_def insertElement_def NewSyncUserHandler_def
               IsStopped_def split: if_splits)
  qed
next
  case (Some found)
  with assms show ?thesis
    by (auto simp add: getElement_def IsStopped_def split: if_splits option.splits)
qed

lemma stoppedUser_eval:
  "stoppedUser =
     \<lparr>pool = \<lparr>base = ['':memory:''],
              elements = [''42'' \<mapsto> \<lparr>uid = ''42'', handler = 0\<rparr>],
              lru = [\<lparr>uid = ''42'', handler = 0\<rparr>],
              lrumap = [''42'' \<mapsto> \<lparr>uid = ''42'', handler = 0\<rparr>],
              maxPoolSize = 64\<rparr>,
      stoppedHandlers = (\<lambda>h. False)(0 := True),
      nextHandler = 1\<rparr>"
  by (simp add: stoppedUser_def StopHTTP_def memoryPool_def newWorld_def newHandlerPool_def
      memoryEnv_def getElement_fresh)

text \<open>
  Against claim C2 as it is written: the pool holds the uid 42 with a Stopped handler,
  and \<open>getElement\<close> answers with the error and changes nothing.
\<close>

theorem getElement_stopped_counterexample:
  "elements (pool stoppedUser) ''42'' = Some \<lparr>uid = ''42'', handler = 0\<rparr>
   \<and> IsStopped stoppedUser 0
   \<and> fst (getElement memoryEnv ''42'' stoppedUser) = Inl ErrElementStopped
   \<and> snd (getElement memoryEnv ''42'' stoppedUser) = stoppedUser"
  by (simp add: stoppedUser_eval getElement_def IsStopped_def)

text \<open>
  Claim C2, amended. When \<open>getElement\<close> finds an element for the uid whose handler
  is Stopped, it returns the error \<^verbatim>\<open>errElementStopped\<close> (no element, the flag
  false) and leaves the pool as it was: the element stays in \<open>elements\<close>, on the LRU
  list and in the LRU index, and no handler is created. An element that \<open>getElement\<close>
  does return has a handler that is not Stopped.
\<close>

theorem getElement_stopped_is_error:
  "(elements (pool w) u = Some e \<and> IsStopped w (handler e)
      \<longrightarrow> getElement env u w = (Inl ErrElementStopped, w))
   \<and> (getElement env u w = (Inr (e', created), w') \<longrightarrow> \<not> IsStopped w' (handler e'))"
  using getElement_found_stopped getElement_returns_running by blast

theorem getElement_stopped_is_error_witness:
  "elements (pool stoppedUser) ''42'' = Some \<lparr>uid = ''42'', handler = 0\<rparr>
   \<and> IsStopped stoppedUser (handler \<lparr>uid = ''42'', handler = 0\<rparr>)
   \<and> getElement memoryEnv ''42'' stoppedUser = (Inl ErrElementStopped, stoppedUser)
   \<and> getElement memoryEnv ''7'' stoppedUser
        = (Inr (\<lparr>uid = ''7'', handler = 1\<rparr>, True), snd (getElement memoryEnv ''7'' stoppedUser))
   \<and> \<not> IsStopped (snd (getElement memoryEnv ''7'' stoppedUser)) (handler \<lparr>uid = ''7'', handler = 1\<rparr>)"
proof -
  have found: "elements (pool stoppedUser) ''42'' = Some \<lparr>uid = ''42'', handler = 0\<rparr>"
    by (simp add: stoppedUser_eval)
  have stopped: "IsStopped stoppedUser (handler \<lparr>uid = ''42'', handler = 0\<rparr>)"
    by (simp add: stoppedUser_eval IsStopped_def)
  have created: "getElement memoryEnv ''7'' stoppedUser
        = (Inr (\<lparr>uid = ''7'', handler = 1\<rparr>, True), snd (getElement memoryEnv ''7'' stoppedUser))"
    by (simp add: stoppedUser_eval getElement_fresh memoryEnv_def)
  from getElement_stopped_is_error[where w = stoppedUser and u = "''42''"
        and e = "\<lparr>uid = ''42'', handler = 0\<rparr>" and env = memoryEnv]
    found stopped
  have first: "getElement memoryEnv ''42'' stoppedUser = (Inl ErrElementStopped, stoppedUser)"
    by blast
  from getElement_stopped_is_error[where w = stoppedUser and u = "''7''" and env = memoryEnv
        and e' = "\<lparr>uid = ''7'', handler = 1\<rparr>" and created = True
        and w' = "snd (getElement memoryEnv ''7'' stoppedUser)"]
    created
  have second: "\<not> IsStopped (snd (getElement memoryEnv ''7'' stoppedUser))
                    (handler \<lparr>uid = ''7'', handler = 1\<rparr>)"
    by blast
  from found stopped first created second show ?thesis by blast
qed

subsection \<open>The invariants in the states the operations reach\<close>

lemma insertElement_fields:
  "fst (insertElement u w) = \<lparr>uid = u, handler = nextHandler w\<rparr>"
  "lru (pool (snd (insertElement u w))) = \<lparr>uid = u, handler = nextHandler w\<rparr> # lru (pool w)"
  "elements (pool (snd (insertElement u w)))
     = (elements (pool w))(u \<mapsto> \<lparr>uid = u, handler = nextHandler w\<rparr>)"
  "lrumap (pool (snd (insertElement u w)))
     = (lrumap (pool w))(u \<mapsto> \<lparr>uid = u, handler = nextHandler w\<rparr>)"
  "stoppedHandlers (snd (insertElement u w)) = (stoppedHandlers w)(nextHandler w := False)"
  "nextHandler (snd (insertElement u w)) = Suc (nextHandler w)"
  "base (pool (snd (insertElement u w))) = base (pool w)"
  "maxPoolSize (pool (snd (insertElement u w))) = maxPoolSize (pool w)"
  by (simp_all add: insertElement_def NewSyncUserHandler_def Let_def)

lemma pool_wf_new: "pool_wf (newWorld (newHandlerPool absSplit basepath maxSize))"
  by (simp add: pool_wf_def pool_inv_def all_on_lru_def newWorld_def newHandlerPool_def)

lemma cleanupHandlers_pool_wf:
  assumes wf: "pool_wf w"
  shows "pool_wf (cleanupHandlers n w)"
proof -
  let ?L = "lru (pool w)"
  let ?j = "length ?L - nat n"
  let ?w' = "cleanupHandlers n w"
  from wf have inv: "pool_inv (pool w)" and onlru: "all_on_lru (pool w)"
    and same: "lrumap (pool w) = elements (pool w)"
    and fresh: "list_all (\<lambda>e. handler e < nextHandler w) ?L"
    unfolding pool_wf_def by blast+
  have inv': "pool_inv (pool ?w')" using inv by (rule cleanupHandlers_pool_inv)
  have onlru': "all_on_lru (pool ?w')"
    unfolding all_on_lru_def
  proof
    fix u assume "u \<in> dom (elements (pool ?w'))"
    then have notdropped: "u \<notin> uid ` set (drop ?j ?L)" and "u \<in> dom (elements (pool w))"
      by (auto simp add: cleanupHandlers_elements domIff split: if_splits)
    with onlru have "u \<in> uid ` set ?L" unfolding all_on_lru_def by blast
    then have "u \<in> uid ` set (take ?j ?L) \<union> uid ` set (drop ?j ?L)"
      by (metis append_take_drop_id image_Un set_append)
    with notdropped have "u \<in> uid ` set (take ?j ?L)" by blast
    then show "u \<in> uid ` set (lru (pool ?w'))" by (simp only: cleanupHandlers_lru)
  qed
  have same': "lrumap (pool ?w') = elements (pool ?w')"
    by (rule ext) (simp add: cleanupHandlers_elements cleanupHandlers_lrumap same)
  have fresh': "list_all (\<lambda>e. handler e < nextHandler ?w') (lru (pool ?w'))"
    using fresh unfolding list_all_iff cleanupHandlers_lru cleanupHandlers_frame
    by (blast dest: in_set_takeD)
  from inv' onlru' same' fresh' show ?thesis unfolding pool_wf_def by blast
qed

lemma evictIfFull_pool_wf: "pool_wf w \<Longrightarrow> pool_wf (evictIfFull w)"
  by (simp add: evictIfFull_def cleanupHandlers_pool_wf)

lemma evictIfFull_absent:
  "elements (pool w) u = None \<Longrightarrow> elements (pool (evictIfFull w)) u = None"
  by (simp add: evictIfFull_def cleanupHandlers_elements)

lemma insertElement_pool_wf:
  assumes wf: "pool_wf w" and absent: "elements (pool w) u = None"
  shows "pool_wf (snd (insertElement u w))"
proof -
  let ?new = "\<lparr>uid = u, handler = nextHandler w\<rparr>"
  let ?w' = "snd (insertElement u w)"
  from wf have inv: "pool_inv (pool w)" and onlru: "all_on_lru (pool w)"
    and same: "lrumap (pool w) = elements (pool w)"
    and fresh: "list_all (\<lambda>e. handler e < nextHandler w) (lru (pool w))"
    unfolding pool_wf_def by blast+
  have other: "uid e \<noteq> u" if "e \<in> set (lru (pool w))" for e
  proof
    assume "uid e = u"
    moreover have "elements (pool w) (uid e) = Some e" using inv that by (rule pool_inv_lookup)
    ultimately show False using absent by simp
  qed
  have lookup: "list_all (\<lambda>e. elements (pool ?w') (uid e) = Some e) (lru (pool ?w'))"
    unfolding list_all_iff insertElement_fields
  proof
    fix e assume "e \<in> set (?new # lru (pool w))"
    then consider "e = ?new" | "e \<in> set (lru (pool w))" by auto
    then show "((elements (pool w))(u \<mapsto> ?new)) (uid e) = Some e"
    proof cases
      case 1
      then show ?thesis by simp
    next
      case 2
      then have "elements (pool w) (uid e) = Some e" using inv by (intro pool_inv_lookup)
      with other[OF 2] show ?thesis by simp
    qed
  qed
  have "nextHandler w \<notin> handler ` set (lru (pool w))"
    using fresh unfolding list_all_iff by auto
  moreover from inv have "distinct (map handler (lru (pool w)))" unfolding pool_inv_def by blast
  ultimately have dist: "distinct (map handler (lru (pool ?w')))"
    by (simp add: insertElement_fields)
  have doms: "dom (elements (pool ?w')) = dom (lrumap (pool ?w'))"
    by (simp add: insertElement_fields same)
  have inv': "pool_inv (pool ?w')"
    using doms lookup dist unfolding pool_inv_def by blast
  have onlru': "all_on_lru (pool ?w')"
    using onlru unfolding all_on_lru_def by (auto simp add: insertElement_fields)
  have same': "lrumap (pool ?w') = elements (pool ?w')"
    by (simp add: insertElement_fields same)
  have fresh': "list_all (\<lambda>e. handler e < nextHandler ?w') (lru (pool ?w'))"
    using fresh unfolding list_all_iff by (auto simp add: insertElement_fields less_Suc_eq)
  from inv' onlru' same' fresh' show ?thesis unfolding pool_wf_def by blast
qed

lemma MoveToFront_set: "set (MoveToFront node xs) = set xs"
proof (cases "node \<in> set xs")
  case True
  have "set (remove1 node xs) \<subseteq> set xs" by (rule set_remove1_subset)
  moreover have "x \<in> insert node (set (remove1 node xs))" if "x \<in> set xs" for x
    using that in_set_remove1[of x node xs] by (cases "x = node") simp_all
  ultimately show ?thesis using True by (auto simp add: MoveToFront_def)
next
  case False
  then show ?thesis by (simp add: MoveToFront_def)
qed

lemma MoveToFront_distinct: "distinct xs \<Longrightarrow> distinct (MoveToFront node xs)"
  by (simp add: MoveToFront_def)

lemma MoveToFront_pool_wf:
  assumes wf: "pool_wf w"
  shows "pool_wf (w\<lparr>pool := (pool w)\<lparr>lru := MoveToFront node (lru (pool w))\<rparr>\<rparr>)"
proof -
  let ?L = "lru (pool w)"
  from wf have inv: "pool_inv (pool w)" and onlru: "all_on_lru (pool w)"
    and same: "lrumap (pool w) = elements (pool w)"
    and fresh: "list_all (\<lambda>e. handler e < nextHandler w) ?L"
    unfolding pool_wf_def by blast+
  from inv have "distinct (map handler ?L)" unfolding pool_inv_def by blast
  then have "distinct ?L" and "inj_on handler (set ?L)" unfolding distinct_map by blast+
  then have "distinct (map handler (MoveToFront node ?L))"
    unfolding distinct_map MoveToFront_set using MoveToFront_distinct by blast
  moreover from inv have "dom (elements (pool w)) = dom (lrumap (pool w))"
    and "list_all (\<lambda>e. elements (pool w) (uid e) = Some e) ?L"
    unfolding pool_inv_def by blast+
  ultimately show ?thesis
    using onlru same fresh
    by (simp add: pool_wf_def pool_inv_def all_on_lru_def list_all_iff MoveToFront_set)
qed

lemma getElement_pool_wf:
  assumes wf: "pool_wf w"
  shows "pool_wf (snd (getElement env u w))"
proof (cases "elements (pool w) u")
  case None
  show ?thesis
  proof (cases "dbFileFor env (pool w) u")
    case (Inl err)
    with None wf show ?thesis by (simp add: getElement_def)
  next
    case (Inr dbFile)
    have wf1: "pool_wf (evictIfFull w)" using wf by (rule evictIfFull_pool_wf)
    have "pool_wf (snd (insertElement u (evictIfFull w)))"
      using wf1 evictIfFull_absent[OF None] by (rule insertElement_pool_wf)
    with None Inr wf1 show ?thesis
      by (cases "insertElement u (evictIfFull w)") (simp add: getElement_def Let_def)
  qed
next
  case (Some element)
  with wf MoveToFront_pool_wf[OF wf] show ?thesis
    by (simp add: getElement_def split: option.splits)
qed

lemma acquireAll_pool_wf: "pool_wf w \<Longrightarrow> pool_wf (acquireAll env us w)"
  by (induction us arbitrary: w) (simp_all add: getElement_pool_wf)


subsection \<open>getElement on a pool over its bound\<close>

lemma getElement_over_bound:
  assumes "elements (pool w) u = None" and "dbFileFor env (pool w) u = Inr dbFile"
    and "\<not> newDBFails env dbFile" and "int (length (lru (pool w))) > maxPoolSize (pool w)"
  shows "getElement env u w =
           (Inr (\<lparr>uid = u, handler = nextHandler w\<rparr>, True),
            snd (insertElement u (cleanupHandlers (1 + maxPoolSize (pool w) sdiv 10) w)))"
  using assms
  by (simp add: getElement_def evictIfFull_def Let_def case_prod_beta insertElement_fields
      cleanupHandlers_frame)

lemma handlers_split:
  assumes "distinct (map handler L)" and "a \<in> set (take j L)" and "b \<in> set (drop j L)"
  shows "handler a \<noteq> handler b"
proof -
  have "distinct (map handler (take j L) @ map handler (drop j L))"
    using assms(1) by (simp only: map_append[symmetric] append_take_drop_id)
  then have "set (map handler (take j L)) \<inter> set (map handler (drop j L)) = {}"
    by (simp only: distinct_append)
  with assms(2,3) show ?thesis by auto
qed

lemma over_bound_state:
  assumes wf: "pool_wf w" and absent: "elements (pool w) u = None"
  defines "b \<equiv> nat (1 + maxPoolSize (pool w) sdiv 10)"
  defines "w' \<equiv> snd (insertElement u (cleanupHandlers (1 + maxPoolSize (pool w) sdiv 10) w))"
  shows "lru (pool w') = \<lparr>uid = u, handler = nextHandler w\<rparr>
                          # take (length (lru (pool w)) - b) (lru (pool w))"
    and "list_all (\<lambda>e. IsStopped w' (handler e) \<and> elements (pool w') (uid e) = None)
           (drop (length (lru (pool w)) - b) (lru (pool w)))"
    and "list_all (\<lambda>e. IsStopped w' (handler e) = IsStopped w (handler e))
           (take (length (lru (pool w)) - b) (lru (pool w)))"
    and "\<not> IsStopped w' (nextHandler w)"
    and "elements (pool w') u = Some \<lparr>uid = u, handler = nextHandler w\<rparr>"
proof -
  let ?L = "lru (pool w)"
  let ?w1 = "cleanupHandlers (1 + maxPoolSize (pool w) sdiv 10) w"
  from wf have inv: "pool_inv (pool w)"
    and fresh: "list_all (\<lambda>e. handler e < nextHandler w) ?L"
    unfolding pool_wf_def by blast+
  have next1: "nextHandler ?w1 = nextHandler w" by (simp only: cleanupHandlers_frame)
  have stopped': "IsStopped w' h = (h \<noteq> nextHandler w \<and> IsStopped ?w1 h)" for h
    unfolding w'_def IsStopped_def insertElement_fields next1 by simp
  have old: "handler e \<noteq> nextHandler w" if "e \<in> set ?L" for e
    using fresh that unfolding list_all_iff by fastforce
  have other: "uid e \<noteq> u" if "e \<in> set ?L" for e
  proof
    assume "uid e = u"
    moreover have "elements (pool w) (uid e) = Some e" using inv that by (rule pool_inv_lookup)
    ultimately show False using absent by simp
  qed
  show "lru (pool w') = \<lparr>uid = u, handler = nextHandler w\<rparr> # take (length ?L - b) ?L"
    unfolding w'_def b_def insertElement_fields next1 cleanupHandlers_lru ..
  show "list_all (\<lambda>e. IsStopped w' (handler e) \<and> elements (pool w') (uid e) = None)
          (drop (length ?L - b) ?L)"
    unfolding list_all_iff
  proof
    fix e assume e: "e \<in> set (drop (length ?L - b) ?L)"
    then have eL: "e \<in> set ?L" by (rule in_set_dropD)
    have "IsStopped ?w1 (handler e)"
      using e unfolding cleanupHandlers_stopped b_def by blast
    then have s: "IsStopped w' (handler e)" using old[OF eL] unfolding stopped' by blast
    have "elements (pool ?w1) (uid e) = None"
      using e unfolding cleanupHandlers_elements b_def by simp
    then have "elements (pool w') (uid e) = None"
      using other[OF eL] unfolding w'_def insertElement_fields by simp
    with s show "IsStopped w' (handler e) \<and> elements (pool w') (uid e) = None" ..
  qed
  show "list_all (\<lambda>e. IsStopped w' (handler e) = IsStopped w (handler e))
          (take (length ?L - b) ?L)"
    unfolding list_all_iff
  proof
    fix e assume e: "e \<in> set (take (length ?L - b) ?L)"
    then have eL: "e \<in> set ?L" by (rule in_set_takeD)
    from inv have d: "distinct (map handler ?L)" unfolding pool_inv_def by blast
    have "handler e \<notin> handler ` set (drop (length ?L - b) ?L)"
      using handlers_split[OF d e] by blast
    then have "IsStopped ?w1 (handler e) = IsStopped w (handler e)"
      unfolding cleanupHandlers_stopped b_def by blast
    then show "IsStopped w' (handler e) = IsStopped w (handler e)"
      using old[OF eL] unfolding stopped' by blast
  qed
  show "\<not> IsStopped w' (nextHandler w)" unfolding stopped' by blast
  show "elements (pool w') u = Some \<lparr>uid = u, handler = nextHandler w\<rparr>"
    unfolding w'_def insertElement_fields next1 by simp
qed

lemma elevenUsers_eval:
  "elevenUsers =
     \<lparr>pool = \<lparr>base = ['':memory:''],
              elements = [''1'' \<mapsto> \<lparr>uid = ''1'', handler = 0\<rparr>,
                          ''2'' \<mapsto> \<lparr>uid = ''2'', handler = 1\<rparr>,
                          ''3'' \<mapsto> \<lparr>uid = ''3'', handler = 2\<rparr>,
                          ''4'' \<mapsto> \<lparr>uid = ''4'', handler = 3\<rparr>,
                          ''5'' \<mapsto> \<lparr>uid = ''5'', handler = 4\<rparr>,
                          ''6'' \<mapsto> \<lparr>uid = ''6'', handler = 5\<rparr>,
                          ''7'' \<mapsto> \<lparr>uid = ''7'', handler = 6\<rparr>,
                          ''8'' \<mapsto> \<lparr>uid = ''8'', handler = 7\<rparr>,
                          ''9'' \<mapsto> \<lparr>uid = ''9'', handler = 8\<rparr>,
                          ''10'' \<mapsto> \<lparr>uid = ''10'', handler = 9\<rparr>,
                          ''11'' \<mapsto> \<lparr>uid = ''11'', handler = 10\<rparr>],
              lru = [\<lparr>uid = ''11'', handler = 10\<rparr>, \<lparr>uid = ''10'', handler = 9\<rparr>,
                     \<lparr>uid = ''9'', handler = 8\<rparr>, \<lparr>uid = ''8'', handler = 7\<rparr>,
                     \<lparr>uid = ''7'', handler = 6\<rparr>, \<lparr>uid = ''6'', handler = 5\<rparr>,
                     \<lparr>uid = ''5'', handler = 4\<rparr>, \<lparr>uid = ''4'', handler = 3\<rparr>,
                     \<lparr>uid = ''3'', handler = 2\<rparr>, \<lparr>uid = ''2'', handler = 1\<rparr>,
                     \<lparr>uid = ''1'', handler = 0\<rparr>],
              lrumap = [''1'' \<mapsto> \<lparr>uid = ''1'', handler = 0\<rparr>,
                        ''2'' \<mapsto> \<lparr>uid = ''2'', handler = 1\<rparr>,
                        ''3'' \<mapsto> \<lparr>uid = ''3'', handler = 2\<rparr>,
                        ''4'' \<mapsto> \<lparr>uid = ''4'', handler = 3\<rparr>,
                        ''5'' \<mapsto> \<lparr>uid = ''5'', handler = 4\<rparr>,
                        ''6'' \<mapsto> \<lparr>uid = ''6'', handler = 5\<rparr>,
                        ''7'' \<mapsto> \<lparr>uid = ''7'', handler = 6\<rparr>,
                        ''8'' \<mapsto> \<lparr>uid = ''8'', handler = 7\<rparr>,
                        ''9'' \<mapsto> \<lparr>uid = ''9'', handler = 8\<rparr>,
                        ''10'' \<mapsto> \<lparr>uid = ''10'', handler = 9\<rparr>,
                        ''11'' \<mapsto> \<lparr>uid = ''11'', handler = 10\<rparr>],
              maxPoolSize = 10\<rparr>,
      stoppedHandlers = (\<lambda>h. False)(0 := False, 1 := False, 2 := False, 3 := False, 4 := False,
                          5 := False, 6 := False, 7 := False, 8 := False, 9 := False, 10 := False),
      nextHandler = 11\<rparr>"
  by (simp add: elevenUsers_def elevenUids_def memoryPool_def newWorld_def newHandlerPool_def
      memoryEnv_def getElement_fresh eval_nat_numeral)

lemma elevenUsers_wf: "pool_wf elevenUsers"
  unfolding elevenUsers_def memoryPool_def by (intro acquireAll_pool_wf pool_wf_new)

text \<open>
  What \<open>getElement\<close> does when it has to create the handler of a uid and finds more
  than \<open>maxPoolSize\<close> elements in a well-formed pool, and neither the data directory
  nor the database fails: it calls \<open>cleanupHandlers\<close> with the batch
  \<open>1 + maxPoolSize / 10\<close> (Go's integer division), so the least recently used
  handlers, that many or all of them, are Stopped and removed, the handlers that stay
  keep their state, and the new element, whose handler is not Stopped, is put at the
  front of what is left.
\<close>

lemma getElement_evicts_batch:
  assumes "pool_wf w" and "elements (pool w) u = None"
    and "dbFileFor env (pool w) u = Inr dbFile" and "\<not> newDBFails env dbFile"
    and "int (length (lru (pool w))) > maxPoolSize (pool w)"
  shows "fst (getElement env u w) = Inr (\<lparr>uid = u, handler = nextHandler w\<rparr>, True)
    \<and> lru (pool (snd (getElement env u w)))
        = \<lparr>uid = u, handler = nextHandler w\<rparr>
          # take (length (lru (pool w)) - nat (1 + maxPoolSize (pool w) sdiv 10)) (lru (pool w))
    \<and> list_all (\<lambda>e. IsStopped (snd (getElement env u w)) (handler e)
                     \<and> elements (pool (snd (getElement env u w))) (uid e) = None)
         (drop (length (lru (pool w)) - nat (1 + maxPoolSize (pool w) sdiv 10)) (lru (pool w)))
    \<and> list_all (\<lambda>e. IsStopped (snd (getElement env u w)) (handler e) = IsStopped w (handler e))
         (take (length (lru (pool w)) - nat (1 + maxPoolSize (pool w) sdiv 10)) (lru (pool w)))
    \<and> \<not> IsStopped (snd (getElement env u w)) (nextHandler w)
    \<and> elements (pool (snd (getElement env u w))) u = Some \<lparr>uid = u, handler = nextHandler w\<rparr>
    \<and> pool_wf (snd (getElement env u w))"
proof -
  note eq = getElement_over_bound[OF assms(2-5)]
  have "pool_wf (snd (getElement env u w))" using assms(1) by (rule getElement_pool_wf)
  then show ?thesis
    using over_bound_state[OF assms(1,2)] unfolding eq fst_conv snd_conv by blast
qed


subsection \<open>The size of the pool\<close>

lemma MoveToFront_length: "length (MoveToFront node xs) = length xs"
proof (cases "node \<in> set xs")
  case True
  then have "xs \<noteq> []" by auto
  with True show ?thesis by (simp add: MoveToFront_def length_remove1)
next
  case False
  then show ?thesis by (simp add: MoveToFront_def)
qed

lemma evictIfFull_frame:
  "maxPoolSize (pool (evictIfFull w)) = maxPoolSize (pool w)"
  "base (pool (evictIfFull w)) = base (pool w)"
  "nextHandler (evictIfFull w) = nextHandler w"
  by (simp_all add: evictIfFull_def cleanupHandlers_frame)

lemma evictIfFull_length:
  assumes "0 \<le> maxPoolSize (pool w)"
    and "int (length (lru (pool w))) \<le> maxPoolSize (pool w) + 1"
  shows "int (length (lru (pool (evictIfFull w)))) \<le> maxPoolSize (pool w)"
proof (cases "int (length (lru (pool w))) > maxPoolSize (pool w)")
  case True
  from assms(1) have "0 \<le> maxPoolSize (pool w) sdiv 10"
    by (simp add: signed_divide_int_def sgn_if)
  then have "1 \<le> nat (1 + maxPoolSize (pool w) sdiv 10)" by simp
  moreover from True assms(1) have "1 \<le> length (lru (pool w))" by simp
  ultimately have "int (length (lru (pool w)) - nat (1 + maxPoolSize (pool w) sdiv 10))
                     \<le> int (length (lru (pool w))) - 1"
    by linarith
  with assms(2) have "int (length (lru (pool w)) - nat (1 + maxPoolSize (pool w) sdiv 10))
                     \<le> maxPoolSize (pool w)"
    by linarith
  with True show ?thesis
    by (simp add: evictIfFull_def cleanupHandlers_lru)
next
  case False
  then show ?thesis by (simp add: evictIfFull_def)
qed

lemma getElement_maxPoolSize:
  "maxPoolSize (pool (snd (getElement env u w))) = maxPoolSize (pool w)"
  by (simp add: getElement_def Let_def case_prod_beta insertElement_fields evictIfFull_frame
      split: option.splits sum.splits)

lemma getElement_length:
  assumes "0 \<le> maxPoolSize (pool w)"
    and "int (length (lru (pool w))) \<le> maxPoolSize (pool w) + 1"
  shows "int (length (lru (pool (snd (getElement env u w))))) \<le> maxPoolSize (pool w) + 1"
proof (cases "elements (pool w) u")
  case None
  show ?thesis
  proof (cases "dbFileFor env (pool w) u")
    case (Inl err)
    with None assms(2) show ?thesis by (simp add: getElement_def)
  next
    case (Inr dbFile)
    from evictIfFull_length[OF assms]
    have "int (length (lru (pool (evictIfFull w)))) \<le> maxPoolSize (pool w)" .
    with None Inr show ?thesis
      by (simp add: getElement_def Let_def case_prod_beta insertElement_fields)
  qed
next
  case (Some element)
  with assms(2) show ?thesis
    by (simp add: getElement_def MoveToFront_length split: option.splits)
qed

lemma acquireAll_length:
  assumes "0 \<le> maxPoolSize (pool w)"
    and "int (length (lru (pool w))) \<le> maxPoolSize (pool w) + 1"
  shows "int (length (lru (pool (acquireAll env us w)))) \<le> maxPoolSize (pool w) + 1"
  using assms
proof (induction us arbitrary: w)
  case Nil
  then show ?case by simp
next
  case (Cons u us)
  let ?w1 = "snd (getElement env u w)"
  have m: "maxPoolSize (pool ?w1) = maxPoolSize (pool w)" by (rule getElement_maxPoolSize)
  have l: "int (length (lru (pool ?w1))) \<le> maxPoolSize (pool ?w1) + 1"
    unfolding m using Cons.prems by (rule getElement_length)
  have p: "0 \<le> maxPoolSize (pool ?w1)" unfolding m by (rule Cons.prems(1))
  have "int (length (lru (pool (acquireAll env us ?w1)))) \<le> maxPoolSize (pool ?w1) + 1"
    using p l by (rule Cons.IH)
  then show ?case unfolding m by simp
qed

text \<open>
  Every state that a sequence of \<open>getElement\<close> calls reaches from a new pool
  satisfies the three invariants of the pool.
\<close>

theorem reachable_pool_invariants:
  "pool_inv (pool (acquireAll env us (newWorld (newHandlerPool absSplit basepath maxSize))))"
  using acquireAll_pool_wf[OF pool_wf_new] unfolding pool_wf_def by blast

text \<open>
  With \<open>maxPoolSize \<ge> 0\<close>, a pool that a sequence of \<open>getElement\<close> calls reaches
  from a new pool never holds more than \<open>maxPoolSize + 1\<close> elements.
\<close>

theorem reachable_pool_size:
  assumes "0 \<le> maxSize"
  shows "int (length (lru (pool (acquireAll env us
            (newWorld (newHandlerPool absSplit basepath maxSize)))))) \<le> maxSize + 1"
proof -
  let ?w = "newWorld (newHandlerPool absSplit basepath maxSize)"
  have m: "maxPoolSize (pool ?w) = maxSize" by (simp add: newWorld_def newHandlerPool_def)
  have l: "int (length (lru (pool ?w))) \<le> maxPoolSize (pool ?w) + 1"
    using assms by (simp add: newWorld_def newHandlerPool_def)
  have p: "0 \<le> maxPoolSize (pool ?w)" unfolding m by (rule assms)
  have "int (length (lru (pool (acquireAll env us ?w)))) \<le> maxPoolSize (pool ?w) + 1"
    using p l by (rule acquireAll_length)
  then show ?thesis unfolding m .
qed

theorem reachable_pool_size_witness:
  "(0::int) \<le> 10
   \<and> length (lru (pool (acquireAll memoryEnv elevenUids
                 (newWorld (newHandlerPool (\<lambda>path. []) '':memory:'' 10))))) = 11
   \<and> int (length (lru (pool (acquireAll memoryEnv elevenUids
                 (newWorld (newHandlerPool (\<lambda>path. []) '':memory:'' 10)))))) \<le> 10 + 1"
proof -
  have a: "(0::int) \<le> 10" by simp
  have "acquireAll memoryEnv elevenUids (newWorld (newHandlerPool (\<lambda>path. []) '':memory:'' 10))
          = elevenUsers"
    by (simp add: elevenUsers_def memoryPool_def)
  then have b: "length (lru (pool (acquireAll memoryEnv elevenUids
                 (newWorld (newHandlerPool (\<lambda>path. []) '':memory:'' 10))))) = 11"
    by (simp add: elevenUsers_eval)
  from reachable_pool_size[OF a, of memoryEnv elevenUids "\<lambda>path. []" "'':memory:''"] a b
  show ?thesis by blast
qed


lemma acquireAll_maxPoolSize:
  "maxPoolSize (pool (acquireAll env us w)) = maxPoolSize (pool w)"
  by (induction us arbitrary: w) (simp_all add: getElement_maxPoolSize)

lemma acquireAll_room:
  assumes "base (pool w) = ['':memory:'']" and "\<not> newDBFails env '':memory:''"
    and "distinct us" and "list_all (\<lambda>u. elements (pool w) u = None) us"
    and "int (length (lru (pool w))) + int (length us) \<le> maxPoolSize (pool w) + 1"
  shows "length (lru (pool (acquireAll env us w))) = length (lru (pool w)) + length us
       \<and> (\<forall>h. IsStopped (acquireAll env us w) h \<longrightarrow> IsStopped w h)"
  using assms
proof (induction us arbitrary: w)
  case Nil
  then show ?case by simp
next
  case (Cons u us)
  let ?w1 = "snd (getElement env u w)"
  from Cons.prems(4) have absent: "elements (pool w) u = None" by simp
  from Cons.prems(5) have room: "\<not> int (length (lru (pool w))) > maxPoolSize (pool w)" by simp
  note step = getElement_fresh[OF absent Cons.prems(1,2) room]
  have b1: "base (pool ?w1) = ['':memory:'']" using Cons.prems(1) by (simp add: step)
  have d1: "distinct us" using Cons.prems(3) by simp
  have "u \<notin> set us" using Cons.prems(3) by simp
  then have a1: "list_all (\<lambda>u'. elements (pool ?w1) u' = None) us"
    using Cons.prems(4) by (auto simp add: step list_all_iff)
  have l1: "length (lru (pool ?w1)) = Suc (length (lru (pool w)))" by (simp add: step)
  have m1: "maxPoolSize (pool ?w1) = maxPoolSize (pool w)" by (simp add: step)
  have r1: "int (length (lru (pool ?w1))) + int (length us) \<le> maxPoolSize (pool ?w1) + 1"
    unfolding l1 m1 using Cons.prems(5) by simp
  have s1: "IsStopped ?w1 h \<longrightarrow> IsStopped w h" for h
    by (simp add: step IsStopped_def)
  from Cons.IH[OF b1 Cons.prems(2) d1 a1 r1] l1 s1 show ?case by simp
qed

text \<open>
  Claim C3 fails on the code. \<open>getElement\<close> compares the size of the pool with
  \<open>maxPoolSize\<close> before it inserts, and evicts only when the size is already greater:
  the request that takes the pool over the bound evicts nothing. After requests for
  \<open>maxPoolSize + 1\<close> distinct uids to a new pool, the pool holds
  \<open>maxPoolSize + 1\<close> elements, more than \<open>maxPoolSize\<close>, and no handler is Stopped.
\<close>

theorem pool_exceeds_max_size:
  assumes "distinct us" and "int (length us) = maxSize + 1"
    and "\<not> newDBFails env '':memory:''"
  shows "int (length (lru (pool (acquireAll env us (memoryPool maxSize))))) = maxSize + 1
       \<and> int (length (lru (pool (acquireAll env us (memoryPool maxSize)))))
           > maxPoolSize (pool (acquireAll env us (memoryPool maxSize)))
       \<and> (\<forall>h. \<not> IsStopped (acquireAll env us (memoryPool maxSize)) h)"
proof -
  let ?w = "memoryPool maxSize"
  have b: "base (pool ?w) = ['':memory:'']"
    and e: "list_all (\<lambda>u. elements (pool ?w) u = None) us"
    and l: "length (lru (pool ?w)) = 0" and m: "maxPoolSize (pool ?w) = maxSize"
    and s: "\<not> IsStopped ?w h" for h
    by (simp_all add: memoryPool_def newWorld_def newHandlerPool_def list_all_iff IsStopped_def)
  have r: "int (length (lru (pool ?w))) + int (length us) \<le> maxPoolSize (pool ?w) + 1"
    unfolding l m using assms(2) by simp
  from acquireAll_room[OF b assms(3) assms(1) e r] s
  have "length (lru (pool (acquireAll env us ?w))) = length us"
    and "\<forall>h. \<not> IsStopped (acquireAll env us ?w) h"
    unfolding l by auto
  with assms(2) show ?thesis
    unfolding acquireAll_maxPoolSize m by simp
qed

theorem pool_exceeds_max_size_witness:
  "distinct elevenUids \<and> int (length elevenUids) = 10 + 1
   \<and> \<not> newDBFails memoryEnv '':memory:''
   \<and> int (length (lru (pool (acquireAll memoryEnv elevenUids (memoryPool 10))))) = 10 + 1
   \<and> maxPoolSize (pool (acquireAll memoryEnv elevenUids (memoryPool 10))) = 10
   \<and> int (length (lru (pool (acquireAll memoryEnv elevenUids (memoryPool 10)))))
       > maxPoolSize (pool (acquireAll memoryEnv elevenUids (memoryPool 10)))
   \<and> (\<forall>h. \<not> IsStopped (acquireAll memoryEnv elevenUids (memoryPool 10)) h)"
proof -
  have a: "distinct elevenUids" by (simp add: elevenUids_def)
  have b: "int (length elevenUids) = 10 + 1" by (simp add: elevenUids_def)
  have c: "\<not> newDBFails memoryEnv '':memory:''" by (simp add: memoryEnv_def)
  have d: "maxPoolSize (pool (acquireAll memoryEnv elevenUids (memoryPool 10))) = 10"
    by (simp add: acquireAll_maxPoolSize memoryPool_def newWorld_def newHandlerPool_def)
  from pool_exceeds_max_size[OF a b c] a b c d show ?thesis by blast
qed

section \<open>Properties of the HTTP API\<close>

subsection \<open>Responses\<close>

lemma http_Error_fresh:
  "status w = None \<Longrightarrow>
   http_Error w msg code =
     w\<lparr>status := Some code,
       headers := (headers w)(''Content-Type'' \<mapsto> ''text/plain; charset=utf-8'',
                              ''X-Content-Type-Options'' \<mapsto> ''nosniff''),
       body := body w @ msg @ [newline]\<rparr>"
  by (simp add: http_Error_def Write_def WriteHeader_def Header_Set_def Let_def)

lemma http_Error_status:
  "status w = None \<Longrightarrow> finalStatus (http_Error w msg code) = code"
  by (simp add: http_Error_fresh finalStatus_def)

lemma showNat_digit: "n < 10 \<Longrightarrow> showNat n = [digitChar n]"
  by (simp add: showNat.simps)

lemma showNat_42: "showNat 42 = ''42''"
  by (simp add: showNat.simps digitChar_def)

lemma showNat_100: "showNat 100 = ''100''"
  by (simp add: showNat.simps digitChar_def)

subsection \<open>The auth middleware\<close>

lemma tokenLoop_last:
  "tokenLoop parse err (earlier @ [lastSecret]) cid acc = parse lastSecret cid"
  by (induction earlier arbitrary: acc) (simp_all add: Let_def)

text \<open>
  Claim C1 fails on the code. The loop over the secrets never leaves early and keeps
  the result of the last secret: when the last configured secret does not parse the
  token, the request is answered 400 with that secret's error, whatever the earlier
  secrets made of the token.
\<close>

theorem hawk_keeps_last_secret:
  assumes "\<not> DisableHawk c" and "NewAuthFromRequest lib r = Inr auth"
    and "Secrets c = earlier @ [lastSecret]"
    and "ParseToken lib lastSecret (CredentialsID auth) = (t, Some e)"
  shows "hawk lib c h r (w, s) = (http_Error w (''Invalid token: '' @ tokenErrorText e) 400, s)"
  using assms by (simp add: hawk_def tokenLoop_last)

theorem hawk_keeps_last_secret_witness:
  "\<not> DisableHawk currentFirst
   \<and> NewAuthFromRequest rotatedLib newlinesGet = Inr \<lparr>CredentialsID = ''tok'', hasHash = False\<rparr>
   \<and> Secrets currentFirst = [''current''] @ [''old'']
   \<and> ParseToken rotatedLib ''current'' ''tok'' = (\<lparr>tokenUid = 42, DerivedSecret = ''derived''\<rparr>, None)
   \<and> ParseToken rotatedLib ''old'' ''tok'' = (zeroToken, Some ErrTokenInvalid)
   \<and> hawk rotatedLib currentFirst handleEchoUID newlinesGet (emptyResponse, ())
       = (\<lparr>status = Some 400,
           headers = [''Content-Type'' \<mapsto> ''text/plain; charset=utf-8'',
                      ''X-Content-Type-Options'' \<mapsto> ''nosniff''],
           body = ''Invalid token: Token is invalid'' @ [newline]\<rparr>, ())
   \<and> hawk rotatedLib currentLast handleEchoUID newlinesGet (emptyResponse, ())
       = (okResponse emptyResponse ''42'', ())"
proof -
  have a: "\<not> DisableHawk currentFirst"
    and b: "NewAuthFromRequest rotatedLib newlinesGet = Inr \<lparr>CredentialsID = ''tok'', hasHash = False\<rparr>"
    and c: "Secrets currentFirst = [''current''] @ [''old'']"
    and d: "ParseToken rotatedLib ''old'' (CredentialsID \<lparr>CredentialsID = ''tok'', hasHash = False\<rparr>)
              = (zeroToken, Some ErrTokenInvalid)"
    and e: "ParseToken rotatedLib ''current'' ''tok'' = (\<lparr>tokenUid = 42, DerivedSecret = ''derived''\<rparr>, None)"
    by (simp_all add: currentFirst_def rotatedLib_def)
  have f: "hawk rotatedLib currentLast handleEchoUID newlinesGet (emptyResponse, ())
       = (okResponse emptyResponse ''42'', ())"
    by (simp add: hawk_def currentLast_def rotatedLib_def Let_def handleEchoUID_def showNat_42)
  from hawk_keeps_last_secret[OF a b c d, of handleEchoUID emptyResponse "()"] a b c d e f
  show ?thesis
    by (simp add: http_Error_fresh emptyResponse_def tokenErrorText_def)
qed

subsection \<open>A collection that does not exist\<close>

lemma getcid_not_found:
  assumes "CollectionNameOk D (Vars r ''collection'')"
    and "GetCollectionId D s u (Vars r ''collection'') = (cId, Some ErrNotFound)"
  shows "getcid D r u False s = ((cId, Some ErrNotFound), s)"
  using assms by (simp add: getcid_def Let_def)

lemma getbso_ok:
  assumes "muxVars r ''bsoId'' = Some bId" and "BSOIdOk D bId"
  shows "getbso D r w = ((bId, True), w)"
  using assms by (simp add: getbso_def)

text \<open>
  Claim C5. The collection named in the URL is a valid name that the store does not
  know (\<^verbatim>\<open>GetCollectionId\<close> answers \<^verbatim>\<open>ErrNotFound\<close>), and nothing has been written to
  the response yet. Then the list route \<open>hCollectionGET\<close> answers 200 with the body
  \<^verbatim>\<open>[]\<close> and \<^verbatim>\<open>Content-Type: application/json\<close>, and the single-item route
  \<open>hBsoGET\<close>, for a valid BSO id, answers 404; neither changes the store.
\<close>

theorem unknown_collection_list_and_item:
  assumes "CollectionNameOk D (Vars r ''collection'')"
    and "GetCollectionId D s u (Vars r ''collection'') = (cId, Some ErrNotFound)"
    and "status w = None"
  shows "hCollectionGET D query r u (w, s)
           = (w\<lparr>status := Some 200,
                headers := (headers w)(''Content-Type'' \<mapsto> ''application/json''),
                body := body w @ ''[]''\<rparr>, s)
       \<and> (muxVars r ''bsoId'' = Some bId \<and> BSOIdOk D bId \<longrightarrow>
             hBsoGET D r u (w, s) = (http_NotFound w, s)
             \<and> finalStatus (http_NotFound w) = 404)"
  using assms
  by (simp add: hCollectionGET_def hBsoGET_def getcid_not_found getbso_ok notFoundOrError_def
      Write_def WriteHeader_def Header_Set_def Let_def http_NotFound_def http_Error_status)

lemma memDispatch_fields:
  "BSOIdOk memDispatch = memBSOIdOk"
  "CollectionNameOk memDispatch = memCollectionNameOk"
  "ErrorText memDispatch = memErrorText"
  "ModifiedToString memDispatch = memModifiedToString"
  "GetCollectionId memDispatch = memGetCollectionId"
  "CreateCollection memDispatch = memCreateCollection"
  "GetBSO memDispatch = memGetBSO"
  "PutBSO memDispatch = memPutBSO"
  "PostBSOs memDispatch = memPostBSOs"
  by (simp_all add: memDispatch_def)

lemma mem_names:
  "memCollectionNameOk ''unknown''" "memCollectionNameOk ''bookmarks''"
  "\<not> memCollectionNameOk ''bad!name''"
  "memBSOIdOk ''id''" "memBSOIdOk ''aaa''" "memBSOIdOk ''ok-id''" "\<not> memBSOIdOk ''bad id''"
  by (simp_all add: memCollectionNameOk_def memBSOIdOk_def nameChars_def)

theorem unknown_collection_list_and_item_witness:
  "CollectionNameOk memDispatch (Vars unknownGet ''collection'')
   \<and> GetCollectionId memDispatch emptyStore ''42'' (Vars unknownGet ''collection'')
        = (0, Some ErrNotFound)
   \<and> status emptyResponse = None
   \<and> muxVars unknownGet ''bsoId'' = Some ''id'' \<and> BSOIdOk memDispatch ''id''
   \<and> hCollectionGET memDispatch (\<lambda>r u cId ws. ws) unknownGet ''42'' (emptyResponse, emptyStore)
        = (\<lparr>status = Some 200, headers = [''Content-Type'' \<mapsto> ''application/json''],
            body = ''[]''\<rparr>, emptyStore)
   \<and> hBsoGET memDispatch unknownGet ''42'' (emptyResponse, emptyStore)
        = (\<lparr>status = Some 404,
            headers = [''Content-Type'' \<mapsto> ''text/plain; charset=utf-8'',
                       ''X-Content-Type-Options'' \<mapsto> ''nosniff''],
            body = ''404 page not found'' @ [newline]\<rparr>, emptyStore)"
proof -
  have a: "CollectionNameOk memDispatch (Vars unknownGet ''collection'')"
    by (simp add: memDispatch_fields Vars_def unknownGet_def mem_names)
  have b: "GetCollectionId memDispatch emptyStore ''42'' (Vars unknownGet ''collection'')
        = (0, Some ErrNotFound)"
    by (simp add: memDispatch_fields memGetCollectionId_def emptyStore_def)
  have c: "status emptyResponse = None" by (simp add: emptyResponse_def)
  have d: "muxVars unknownGet ''bsoId'' = Some ''id''" by (simp add: unknownGet_def)
  have e: "BSOIdOk memDispatch ''id''" by (simp add: memDispatch_fields mem_names)
  from unknown_collection_list_and_item[OF a b c, of "\<lambda>r u cId ws. ws" "''id''"] a b c d e
  show ?thesis
    by (simp add: http_NotFound_def http_Error_fresh emptyResponse_def)
qed

subsection \<open>PUT of a single BSO\<close>

text \<open>
  Claim C10. The BSO id is valid, the collection name is valid, the store does not
  know the collection, and the body does not decode. \<open>hBsoPUT\<close> calls \<open>getcid\<close>
  with \<^verbatim>\<open>automake\<close> before it decodes the body, so \<^verbatim>\<open>CreateCollection\<close> has run when
  the handler answers 400 \<^verbatim>\<open>Invalid JSON\<close>: the store of the result is the one
  \<^verbatim>\<open>CreateCollection\<close> left, not the one the request found.
\<close>

theorem put_invalid_json_after_create:
  assumes "muxVars r ''bsoId'' = Some bId" and "BSOIdOk D bId"
    and "CollectionNameOk D (Vars r ''collection'')"
    and "GetCollectionId D s u (Vars r ''collection'') = (c0, Some ErrNotFound)"
    and "CreateCollection D s u (Vars r ''collection'') = ((cId, err), s')"
    and "err \<noteq> Some ErrNotFound"
    and "DecodePut cd (reqBody r) = None"
    and "status w = None"
  shows "hBsoPUT D cd r u (w, s) = (http_Error w ''Invalid JSON'' 400, s')
       \<and> finalStatus (fst (hBsoPUT D cd r u (w, s))) = 400"
  using assms
  by (simp add: hBsoPUT_def getbso_ok getcid_def Let_def http_Error_status)

theorem put_invalid_json_after_create_witness:
  "muxVars brokenPut ''bsoId'' = Some ''aaa'' \<and> BSOIdOk memDispatch ''aaa''
   \<and> CollectionNameOk memDispatch (Vars brokenPut ''collection'')
   \<and> GetCollectionId memDispatch emptyStore ''42'' (Vars brokenPut ''collection'')
        = (0, Some ErrNotFound)
   \<and> CreateCollection memDispatch emptyStore ''42'' (Vars brokenPut ''collection'')
        = ((1, None), emptyStore\<lparr>collections := [(''42'', ''bookmarks'', 1)]\<rparr>)
   \<and> DecodePut testCodec (reqBody brokenPut) = None
   \<and> status emptyResponse = None
   \<and> fst (hBsoPUT memDispatch testCodec brokenPut ''42'' (emptyResponse, emptyStore))
        = \<lparr>status = Some 400,
            headers = [''Content-Type'' \<mapsto> ''text/plain; charset=utf-8'',
                       ''X-Content-Type-Options'' \<mapsto> ''nosniff''],
            body = ''Invalid JSON'' @ [newline]\<rparr>
   \<and> GetCollectionId memDispatch
         (snd (hBsoPUT memDispatch testCodec brokenPut ''42'' (emptyResponse, emptyStore)))
         ''42'' ''bookmarks'' = (1, None)"
proof -
  have a: "muxVars brokenPut ''bsoId'' = Some ''aaa''" by (simp add: brokenPut_def)
  have b: "BSOIdOk memDispatch ''aaa''" by (simp add: memDispatch_fields mem_names)
  have c: "CollectionNameOk memDispatch (Vars brokenPut ''collection'')"
    by (simp add: memDispatch_fields Vars_def brokenPut_def mem_names)
  have d: "GetCollectionId memDispatch emptyStore ''42'' (Vars brokenPut ''collection'')
        = (0, Some ErrNotFound)"
    by (simp add: memDispatch_fields memGetCollectionId_def emptyStore_def)
  have e: "CreateCollection memDispatch emptyStore ''42'' (Vars brokenPut ''collection'')
        = ((1, None), emptyStore\<lparr>collections := [(''42'', ''bookmarks'', 1)]\<rparr>)"
    by (simp add: memDispatch_fields memCreateCollection_def emptyStore_def Vars_def
        brokenPut_def)
  have f: "(None :: storageError option) \<noteq> Some ErrNotFound" by simp
  have g: "DecodePut testCodec (reqBody brokenPut) = None"
    by (simp add: testCodec_def brokenPut_def putBody_def encodeString_def)
  have h: "status emptyResponse = None" by (simp add: emptyResponse_def)
  have i: "GetCollectionId memDispatch (emptyStore\<lparr>collections := [(''42'', ''bookmarks'', 1)]\<rparr>)
             ''42'' ''bookmarks'' = (1, None)"
    by (simp add: memDispatch_fields memGetCollectionId_def)
  from put_invalid_json_after_create[OF a b c d e f g h] a b c d e g h i
  show ?thesis
    by (simp add: http_Error_fresh emptyResponse_def)
qed

text \<open>
  Claim C8 fails on the code. \<open>hBsoPUT\<close> tests the error of \<open>getcid\<close> against
  \<^verbatim>\<open>ErrNotFound\<close> only. With a collection name that fails validation \<open>getcid\<close>
  returns the id 0 and \<^verbatim>\<open>ErrInvalidCollectionName\<close>, and the handler goes on: when the
  body decodes, it calls \<^verbatim>\<open>PutBSO\<close> with the collection id 0, and the response and the
  store are what that call makes them.
\<close>

theorem put_ignores_invalid_name:
  assumes "muxVars r ''bsoId'' = Some bId" and "BSOIdOk D bId"
    and "\<not> CollectionNameOk D (Vars r ''collection'')"
    and "DecodePut cd (reqBody r) = Some (payload, sortIndex, ttl)"
  shows "hBsoPUT D cd r u (w, s) =
           (putResponse D (fst (PutBSO D s u 0 bId payload sortIndex
                                  (map_option (\<lambda>t. mul64 t 1000) ttl))) w,
            snd (PutBSO D s u 0 bId payload sortIndex (map_option (\<lambda>t. mul64 t 1000) ttl)))"
  using assms
  by (simp add: hBsoPUT_def getbso_ok getcid_def Let_def case_prod_beta)

theorem put_ignores_invalid_name_witness:
  "muxVars badNamePut ''bsoId'' = Some ''aaa'' \<and> BSOIdOk memDispatch ''aaa''
   \<and> Vars badNamePut ''collection'' = ''bad!name''
   \<and> \<not> CollectionNameOk memDispatch (Vars badNamePut ''collection'')
   \<and> DecodePut testCodec (reqBody badNamePut) = Some (Some ''x'', None, None)
   \<and> finalStatus (fst (hBsoPUT memDispatch testCodec badNamePut ''42'' (emptyResponse, emptyStore)))
        = 200
   \<and> bsos (snd (hBsoPUT memDispatch testCodec badNamePut ''42'' (emptyResponse, emptyStore)))
        = [(''42'', 0, ''aaa'', Some ''x'')]"
proof -
  have a: "muxVars badNamePut ''bsoId'' = Some ''aaa''" by (simp add: badNamePut_def)
  have b: "BSOIdOk memDispatch ''aaa''" by (simp add: memDispatch_fields mem_names)
  have v: "Vars badNamePut ''collection'' = ''bad!name''" by (simp add: Vars_def badNamePut_def)
  have c: "\<not> CollectionNameOk memDispatch (Vars badNamePut ''collection'')"
    by (simp add: v memDispatch_fields mem_names)
  have d: "DecodePut testCodec (reqBody badNamePut) = Some (Some ''x'', None, None)"
    by (simp add: testCodec_def badNamePut_def)
  have p: "PutBSO memDispatch emptyStore ''42'' 0 ''aaa'' (Some ''x'') None None
             = ((clock emptyStore, None), emptyStore\<lparr>bsos := [(''42'', 0, ''aaa'', Some ''x'')]\<rparr>)"
    by (simp add: memDispatch_fields memPutBSO_def MAX_BSO_PAYLOAD_SIZE_def emptyStore_def)
  from put_ignores_invalid_name[OF a b c d, of "''42''" emptyResponse emptyStore] a b v c d
  show ?thesis
    by (simp add: p putResponse_def Let_def Write_def WriteHeader_def Header_Set_def
        finalStatus_def emptyResponse_def)
qed


subsection \<open>POST to a collection\<close>

lemma validatePosted_prefix:
  assumes "list_all (\<lambda>b. BSOIdOk D (bso_Id b) \<and> \<not> payloadTooBig b) pre"
  shows "validatePosted D (map Some pre @ later) =
           (case validatePosted D later of
              None \<Rightarrow> None
            | Some (Inl msg) \<Rightarrow> Some (Inl msg)
            | Some (Inr items) \<Rightarrow> Some (Inr (pre @ items)))"
  using assms
  by (induction pre) (auto split: option.splits sum.splits)

lemma validatePosted_first_invalid:
  assumes "list_all (\<lambda>b. BSOIdOk D (bso_Id b) \<and> \<not> payloadTooBig b) pre"
    and "\<not> BSOIdOk D (bso_Id b)"
  shows "validatePosted D (map Some pre @ Some b # rest) = Some (Inl ''Invalid or missing Id in data'')"
  using assms(2) by (simp add: validatePosted_prefix[OF assms(1)])

lemma validatePosted_nil:
  assumes "list_all (\<lambda>b. BSOIdOk D (bso_Id b) \<and> \<not> payloadTooBig b) pre"
  shows "validatePosted D (map Some pre @ None # rest) = None"
  by (simp add: validatePosted_prefix[OF assms])

lemma validatePosted_invalid:
  "\<not> list_all (\<lambda>b. BSOIdOk D (bso_Id b)) items
   \<Longrightarrow> \<exists>msg. validatePosted D (map Some items) = Some (Inl msg)"
  by (induction items) auto

lemma post_too_many:
  assumes "Header_Get r ''Content-Type'' = ct"
    and "ct = ''application/json'' \<or> ct = ''text/plain'' \<or> ct = ''application/newlines''"
    and "parsePosted cd ct (reqBody r) = Inr posted"
    and "length posted > 100"
  shows "hCollectionPOST D cd r u (w, s)
           = Some (http_Error w ''Exceeded 100 BSO per request'' 413, s)"
  using assms(1,3,4) assms(2)
  by (elim disjE)
     (simp_all add: hCollectionPOST_def Let_def MAX_BSO_PER_POST_REQUEST_def showNat_100)

lemma post_invalid:
  assumes "Header_Get r ''Content-Type'' = ct"
    and "ct = ''application/json'' \<or> ct = ''text/plain'' \<or> ct = ''application/newlines''"
    and "parsePosted cd ct (reqBody r) = Inr posted"
    and "length posted \<le> 100"
    and "validatePosted D posted = Some (Inl msg)"
  shows "hCollectionPOST D cd r u (w, s) = Some (http_Error w msg 400, s)"
  using assms(1,3,4,5) assms(2)
  by (elim disjE) (simp_all add: hCollectionPOST_def Let_def MAX_BSO_PER_POST_REQUEST_def)

lemma post_nil_item:
  assumes "Header_Get r ''Content-Type'' = ct"
    and "ct = ''application/json'' \<or> ct = ''text/plain'' \<or> ct = ''application/newlines''"
    and "parsePosted cd ct (reqBody r) = Inr posted"
    and "length posted \<le> 100"
    and "validatePosted D posted = None"
  shows "hCollectionPOST D cd r u (w, s) = None"
  using assms(1,3,4,5) assms(2)
  by (elim disjE) (simp_all add: hCollectionPOST_def Let_def MAX_BSO_PER_POST_REQUEST_def)

lemma twoItemsPost_parsed:
  "Header_Get twoItemsPost ''Content-Type'' = ''application/json''"
  "parsePosted testCodec ''application/json'' (reqBody twoItemsPost)
     = Inr [Some okItem, Some badItem]"
  by (simp_all add: twoItemsPost_def Header_Get_def parsePosted_def testCodec_def)

lemma nullItemPost_parsed:
  "Header_Get nullItemPost ''Content-Type'' = ''application/json''"
  "parsePosted testCodec ''application/json'' (reqBody nullItemPost)
     = Inr [None, Some badItem]"
  by (simp_all add: nullItemPost_def Header_Get_def parsePosted_def testCodec_def
      twoItemsBody_def nullItemBody_def)

lemma twoItems_validate:
  "validatePosted memDispatch [Some okItem, Some badItem]
     = Some (Inl ''Invalid or missing Id in data'')"
  by (simp add: okItem_def badItem_def memDispatch_fields mem_names payloadTooBig_def
      MAX_BSO_PAYLOAD_SIZE_def)

text \<open>
  A body with a \<^verbatim>\<open>null\<close> item before the invalid id: the validation loop dereferences
  the nil pointer, and the handler panics without a response.
\<close>

lemma post_null_item_panics:
  "hCollectionPOST memDispatch testCodec nullItemPost ''42'' (emptyResponse, emptyStore) = None"
  by (rule post_nil_item[OF nullItemPost_parsed(1) _ nullItemPost_parsed(2)]) simp_all

text \<open>
  Against claim C4 as it is written: a POST of two items, of which the second has the
  invalid id \<^verbatim>\<open>bad id\<close>, is answered 400 as a whole; nothing is stored, and the
  response has no list of successes.
\<close>

theorem post_one_invalid_id_counterexample:
  "BSOIdOk memDispatch (bso_Id okItem) \<and> \<not> BSOIdOk memDispatch (bso_Id badItem)
   \<and> parsePosted testCodec ''application/json'' (reqBody twoItemsPost)
        = Inr [Some okItem, Some badItem]
   \<and> hCollectionPOST memDispatch testCodec twoItemsPost ''42'' (emptyResponse, emptyStore)
        = Some (\<lparr>status = Some 400,
                  headers = [''Content-Type'' \<mapsto> ''text/plain; charset=utf-8'',
                             ''X-Content-Type-Options'' \<mapsto> ''nosniff''],
                  body = ''Invalid or missing Id in data'' @ [newline]\<rparr>, emptyStore)"
proof -
  have "hCollectionPOST memDispatch testCodec twoItemsPost ''42'' (emptyResponse, emptyStore)
          = Some (http_Error emptyResponse ''Invalid or missing Id in data'' 400, emptyStore)"
    by (rule post_invalid[OF twoItemsPost_parsed(1) _ twoItemsPost_parsed(2) _ twoItems_validate])
       simp_all
  then show ?thesis
    by (simp add: twoItemsPost_parsed http_Error_fresh emptyResponse_def okItem_def badItem_def
        memDispatch_fields mem_names)
qed

text \<open>
  Claim C4, amended. For a POST whose content type is accepted and whose body decodes
  to the list \<open>posted\<close>: with more than 100 items the request is rejected with 413.
  With at most 100 items, all of them objects (none is \<^verbatim>\<open>null\<close>), of which one has an
  invalid id, the whole request is rejected with 400 and the store is not touched: there
  are no per-item results for an invalid id. The items are checked in order: when the
  items before the first invalid id are objects with valid ids and payloads within the
  size limit, the message is \<^verbatim>\<open>Invalid or missing Id in data\<close>, whatever follows that
  item.
\<close>

theorem post_rejects_whole_request:
  assumes "Header_Get r ''Content-Type'' = ct"
    and "ct = ''application/json'' \<or> ct = ''text/plain'' \<or> ct = ''application/newlines''"
    and "parsePosted cd ct (reqBody r) = Inr posted"
  shows "(length posted > 100 \<longrightarrow>
            hCollectionPOST D cd r u (w, s)
              = Some (http_Error w ''Exceeded 100 BSO per request'' 413, s))
       \<and> (length posted \<le> 100 \<and> posted = map Some items
            \<and> \<not> list_all (\<lambda>b. BSOIdOk D (bso_Id b)) items \<longrightarrow>
            (\<exists>msg. hCollectionPOST D cd r u (w, s) = Some (http_Error w msg 400, s)))
       \<and> (length posted \<le> 100 \<and> posted = map Some pre @ Some b # rest
            \<and> list_all (\<lambda>b. BSOIdOk D (bso_Id b) \<and> \<not> payloadTooBig b) pre
            \<and> \<not> BSOIdOk D (bso_Id b) \<longrightarrow>
            hCollectionPOST D cd r u (w, s)
              = Some (http_Error w ''Invalid or missing Id in data'' 400, s))"
proof (intro conjI impI)
  assume "length posted > 100"
  with assms show "hCollectionPOST D cd r u (w, s)
                     = Some (http_Error w ''Exceeded 100 BSO per request'' 413, s)"
    by (rule post_too_many)
next
  assume a: "length posted \<le> 100 \<and> posted = map Some items
             \<and> \<not> list_all (\<lambda>b. BSOIdOk D (bso_Id b)) items"
  then have len: "length posted \<le> 100" by (rule conjunct1)
  from a obtain msg where v: "validatePosted D posted = Some (Inl msg)"
    using validatePosted_invalid by blast
  have "hCollectionPOST D cd r u (w, s) = Some (http_Error w msg 400, s)"
    by (rule post_invalid[OF assms len v])
  then show "\<exists>msg. hCollectionPOST D cd r u (w, s) = Some (http_Error w msg 400, s)" ..
next
  assume a: "length posted \<le> 100 \<and> posted = map Some pre @ Some b # rest
             \<and> list_all (\<lambda>b. BSOIdOk D (bso_Id b) \<and> \<not> payloadTooBig b) pre
             \<and> \<not> BSOIdOk D (bso_Id b)"
  then have len: "length posted \<le> 100" by (rule conjunct1)
  from a have v: "validatePosted D posted = Some (Inl ''Invalid or missing Id in data'')"
    using validatePosted_first_invalid by blast
  show "hCollectionPOST D cd r u (w, s)
          = Some (http_Error w ''Invalid or missing Id in data'' 400, s)"
    by (rule post_invalid[OF assms len v])
qed

theorem post_rejects_whole_request_witness:
  "Header_Get manyItemsPost ''Content-Type'' = ''application/json''
   \<and> parsePosted testCodec ''application/json'' (reqBody manyItemsPost)
        = Inr (replicate 101 (Some okItem))
   \<and> length (replicate 101 (Some okItem)) > 100
   \<and> hCollectionPOST memDispatch testCodec manyItemsPost ''42'' (emptyResponse, emptyStore)
        = Some (http_Error emptyResponse ''Exceeded 100 BSO per request'' 413, emptyStore)
   \<and> finalStatus (http_Error emptyResponse ''Exceeded 100 BSO per request'' 413) = 413
   \<and> Header_Get twoItemsPost ''Content-Type'' = ''application/json''
   \<and> parsePosted testCodec ''application/json'' (reqBody twoItemsPost)
        = Inr [Some okItem, Some badItem]
   \<and> length [Some okItem, Some badItem] \<le> 100
   \<and> [Some okItem, Some badItem] = map Some [okItem, badItem]
   \<and> [Some okItem, Some badItem] = map Some [okItem] @ Some badItem # []
   \<and> \<not> list_all (\<lambda>b. BSOIdOk memDispatch (bso_Id b)) [okItem, badItem]
   \<and> list_all (\<lambda>b. BSOIdOk memDispatch (bso_Id b) \<and> \<not> payloadTooBig b) [okItem]
   \<and> \<not> BSOIdOk memDispatch (bso_Id badItem)
   \<and> hCollectionPOST memDispatch testCodec twoItemsPost ''42'' (emptyResponse, emptyStore)
        = Some (http_Error emptyResponse ''Invalid or missing Id in data'' 400, emptyStore)
   \<and> finalStatus (http_Error emptyResponse ''Invalid or missing Id in data'' 400) = 400"
proof -
  have m1: "Header_Get manyItemsPost ''Content-Type'' = ''application/json''"
    and m2: "parsePosted testCodec ''application/json'' (reqBody manyItemsPost)
               = Inr (replicate 101 (Some okItem))"
    by (simp_all add: manyItemsPost_def Header_Get_def parsePosted_def testCodec_def
        twoItemsBody_def nullItemBody_def)
  have ct: "''application/json'' = ''application/json'' \<or> ''application/json'' = ''text/plain''
            \<or> ''application/json'' = ''application/newlines''"
    by simp
  have m3: "length (replicate 101 (Some okItem)) > 100" by simp
  have t3: "length [Some okItem, Some badItem] \<le> 100" by simp
  have t4: "[Some okItem, Some badItem] = map Some [okItem, badItem]" by simp
  have t5: "[Some okItem, Some badItem] = map Some [okItem] @ Some badItem # []" by simp
  have t6: "\<not> list_all (\<lambda>b. BSOIdOk memDispatch (bso_Id b)) [okItem, badItem]"
    by (simp add: okItem_def badItem_def memDispatch_fields mem_names)
  have t7: "list_all (\<lambda>b. BSOIdOk memDispatch (bso_Id b) \<and> \<not> payloadTooBig b) [okItem]"
    by (simp add: okItem_def memDispatch_fields mem_names payloadTooBig_def
        MAX_BSO_PAYLOAD_SIZE_def)
  have t8: "\<not> BSOIdOk memDispatch (bso_Id badItem)"
    by (simp add: badItem_def memDispatch_fields mem_names)
  have s0: "status emptyResponse = None" by (simp add: emptyResponse_def)
  from post_rejects_whole_request[OF m1 ct m2, of memDispatch "''42''" emptyResponse emptyStore] m3
  have many: "hCollectionPOST memDispatch testCodec manyItemsPost ''42'' (emptyResponse, emptyStore)
              = Some (http_Error emptyResponse ''Exceeded 100 BSO per request'' 413, emptyStore)"
    by blast
  from post_rejects_whole_request[OF twoItemsPost_parsed(1) ct twoItemsPost_parsed(2),
        where D = memDispatch and u = "''42''" and w = emptyResponse and s = emptyStore
          and pre = "[okItem]" and b = badItem and rest = "[]"] t3 t5 t7 t8
  have two: "hCollectionPOST memDispatch testCodec twoItemsPost ''42'' (emptyResponse, emptyStore)
              = Some (http_Error emptyResponse ''Invalid or missing Id in data'' 400, emptyStore)"
    by blast
  from m1 m2 m3 t3 t4 t5 t6 t7 t8 twoItemsPost_parsed many two http_Error_status[OF s0]
  show ?thesis by blast
qed

subsection \<open>The response shaper\<close>

lemma digitChar_not_newline: "d < 10 \<Longrightarrow> digitChar d \<noteq> newline"
proof -
  assume "d < 10"
  then have a: "digitChar d \<in> set ''0123456789''"
    unfolding digitChar_def by (intro nth_mem) simp
  have b: "newline \<notin> set ''0123456789''" by (simp add: newline_def)
  have r: "x \<in> S \<Longrightarrow> y \<notin> S \<Longrightarrow> x \<noteq> y" for x y :: char and S
    by blast
  show ?thesis by (rule r[OF a b])
qed

lemma showNat_no_newline: "newline \<notin> set (showNat n)"
proof (induction n rule: showNat.induct)
  case (1 n)
  show ?case
  proof (cases "n < 10")
    case True
    then show ?thesis by (simp add: showNat_digit digitChar_not_newline[symmetric])
  next
    case False
    then have "showNat n = showNat (n div 10) @ [digitChar (n mod 10)]"
      by (subst showNat.simps) simp
    moreover have "digitChar (n mod 10) \<noteq> newline" by (rule digitChar_not_newline) simp
    ultimately show ?thesis using "1.IH"[OF False] by auto
  qed
qed

lemma showInt_no_newline: "newline \<notin> set (showInt i)"
  by (simp add: showInt_def showNat_no_newline newline_def[symmetric])
     (simp add: newline_def)

lemma hexChar_not_newline: "d < 16 \<Longrightarrow> hexChar d \<noteq> newline"
proof -
  assume "d < 16"
  then have a: "hexChar d \<in> set ''0123456789abcdef''"
    unfolding hexChar_def by (intro nth_mem) simp
  have b: "newline \<notin> set ''0123456789abcdef''" by (simp add: newline_def)
  have r: "x \<in> S \<Longrightarrow> y \<notin> S \<Longrightarrow> x \<noteq> y" for x y :: char and S
    by blast
  show ?thesis by (rule r[OF a b])
qed

lemma escapeChar_no_newline: "newline \<notin> set (escapeChar c)"
proof -
  have "(of_char c :: nat) mod 256 = of_char c" by simp
  then have "(of_char c :: nat) < 256" by (metis mod_less_divisor zero_less_numeral)
  then have hi: "(of_char c :: nat) div 16 < 16" by presburger
  have lo: "(of_char c :: nat) mod 16 < 16" by simp
  have h: "newline \<noteq> hexChar ((of_char c :: nat) div 16)"
          "newline \<noteq> hexChar ((of_char c :: nat) mod 16)"
    by (rule hexChar_not_newline[OF hi, symmetric], rule hexChar_not_newline[OF lo, symmetric])
  have n: "newline \<noteq> CHR 0x5C" "newline \<noteq> CHR 0x22" "newline \<noteq> CHR ''n''"
          "newline \<noteq> CHR ''r''" "newline \<noteq> CHR ''t''" "newline \<noteq> CHR ''u''"
          "newline \<noteq> CHR ''0''"
    by (simp_all add: newline_def)
  show ?thesis
  proof (cases "c = newline")
    case True
    then show ?thesis by (simp add: escapeChar_def newline_def)
  next
    case False
    then have "newline \<noteq> c" by blast
    then show ?thesis using h n by (simp add: escapeChar_def)
  qed
qed

lemma encodeString_no_newline: "newline \<notin> set (encodeString s)"
  using escapeChar_no_newline by (auto simp add: encodeString_def newline_def)

lemma encode_no_newline:
  "newline \<notin> set (encodeJSON v)"
  "newline \<notin> set (encodeElems vs)"
  "newline \<notin> set (encodeMembers kvs)"
proof (induction v and vs and kvs rule: encodeJSON_encodeElems_encodeMembers.induct)
  case 1
  show ?case by (simp add: newline_def)
next
  case (2 b)
  show ?case by (simp add: newline_def)
next
  case (3 i)
  show ?case by (simp add: showInt_no_newline)
next
  case (4 s)
  show ?case by (simp add: encodeString_no_newline)
next
  case (5 xs)
  then show ?case by (simp add: newline_def)
next
  case (6 kvs)
  then show ?case by (simp add: newline_def)
next
  case 7
  show ?case by simp
next
  case (8 x)
  then show ?case by simp
next
  case (9 x y ys)
  then show ?case by (simp add: newline_def)
next
  case 10
  show ?case by simp
next
  case (11 k v)
  then show ?case using encodeString_no_newline[of k] by (simp add: newline_def)
next
  case (12 k v kv kvs)
  then show ?case using encodeString_no_newline[of k] by (simp add: newline_def)
qed

lemma Write_fields:
  "body (Write bytes w) = body w @ bytes"
  "headers (Write bytes w) = headers w"
  "status (Write bytes w) = Some (case status w of None \<Rightarrow> 200 | Some code \<Rightarrow> code)"
  by (simp_all add: Write_def WriteHeader_def Let_def split: option.splits)

lemma writeLines_fields:
  "body (writeLines vals w) = body w @ concat (map (\<lambda>raw. raw @ [newline]) vals)"
  "headers (writeLines vals w) = headers w"
  by (induction vals arbitrary: w) (simp_all add: Write_fields)

lemma writeLines_status:
  "finalStatus (writeLines vals w) = finalStatus w"
  by (induction vals arbitrary: w)
     (simp_all add: finalStatus_def Write_fields split: option.splits)

lemma count_lines:
  "count_list (concat (map (\<lambda>x. encodeJSON x @ [newline]) xs)) newline = length xs"
  by (induction xs) (simp_all add: encode_no_newline)

lemma NewLine_body:
  "body (NewLine (Inr v) w)
     = body w @ (case v of
                   JArray xs \<Rightarrow> concat (map (\<lambda>x. encodeJSON x @ [newline]) xs)
                 | JNull \<Rightarrow> []
                 | _ \<Rightarrow> encodeJSON v @ [newline])"
  by (cases v)
     (simp_all add: NewLine_def unmarshalRaw_def Let_def Write_fields writeLines_fields
        Header_Set_def comp_def)

lemma NewLine_header:
  "status w = None \<Longrightarrow>
   headers (NewLine (Inr v) w) ''Content-Type'' = Some ''application/newlines''"
  by (cases v)
     (simp_all add: NewLine_def unmarshalRaw_def Let_def Write_fields writeLines_fields
        Header_Set_def)

lemma finalStatus_Write: "finalStatus (Write bytes w) = finalStatus w"
  by (simp add: finalStatus_def Write_fields split: option.splits)

lemma finalStatus_Header_Set: "finalStatus (Header_Set k v w) = finalStatus w"
  by (simp add: finalStatus_def Header_Set_def)

lemma NewLine_status:
  "status w = None \<Longrightarrow> finalStatus (NewLine (Inr v) w) = 200"
proof -
  assume "status w = None"
  then have "finalStatus w = 200" by (simp add: finalStatus_def)
  then show ?thesis
    by (cases v)
       (simp_all add: NewLine_def unmarshalRaw_def Let_def writeLines_status finalStatus_Write
          finalStatus_Header_Set)
qed

text \<open>
  The shape of the body for every document: an array gives one line for each element,
  so an array of \<open>n\<close> elements adds exactly \<open>n\<close> newline characters (no element
  contains one); the document \<^verbatim>\<open>null\<close> gives nothing; every other document is
  written whole, followed by one newline. \<^verbatim>\<open>Content-Type\<close> is
  \<^verbatim>\<open>application/newlines\<close> and the status is 200.
\<close>

lemma newlines_response_shape:
  assumes "Header_Get r ''Accept'' = ''application/newlines''" and "status w = None"
  shows "body (JsonNewline r (Inr v) w)
           = body w @ (case v of
                         JArray xs \<Rightarrow> concat (map (\<lambda>x. encodeJSON x @ [newline]) xs)
                       | JNull \<Rightarrow> []
                       | _ \<Rightarrow> encodeJSON v @ [newline])
       \<and> count_list (body (JsonNewline r (Inr v) w)) newline
           = count_list (body w) newline
             + (case v of JArray xs \<Rightarrow> length xs | JNull \<Rightarrow> 0 | _ \<Rightarrow> 1)
       \<and> headers (JsonNewline r (Inr v) w) ''Content-Type'' = Some ''application/newlines''
       \<and> finalStatus (JsonNewline r (Inr v) w) = 200"
proof -
  have eq: "JsonNewline r (Inr v) w = NewLine (Inr v) w"
    using assms(1) by (simp add: JsonNewline_def)
  have "count_list (body (NewLine (Inr v) w)) newline
           = count_list (body w) newline
             + (case v of JArray xs \<Rightarrow> length xs | JNull \<Rightarrow> 0 | _ \<Rightarrow> 1)"
    unfolding NewLine_body
    by (cases v) (simp_all add: count_lines encode_no_newline del: encodeJSON.simps)
  then show ?thesis
    unfolding eq using NewLine_body[of v w] NewLine_header[OF assms(2)] NewLine_status[OF assms(2)]
    by blast
qed

text \<open>
  An array of three objects gives three lines, and one object gives one line.
\<close>

lemma newlines_three_elements:
  "body (JsonNewline newlinesGet
             (Inr (JArray [JObject [(''n'', JNumber 1)], JObject [(''n'', JNumber 2)],
                           JObject [(''n'', JNumber 3)]])) emptyResponse)
        = ''{'' @ [CHR 0x22] @ ''n'' @ [CHR 0x22] @ '':1}'' @ [newline]
          @ ''{'' @ [CHR 0x22] @ ''n'' @ [CHR 0x22] @ '':2}'' @ [newline]
          @ ''{'' @ [CHR 0x22] @ ''n'' @ [CHR 0x22] @ '':3}'' @ [newline]
   \<and> count_list (body (JsonNewline newlinesGet
             (Inr (JArray [JObject [(''n'', JNumber 1)], JObject [(''n'', JNumber 2)],
                           JObject [(''n'', JNumber 3)]])) emptyResponse)) newline = 3
   \<and> body (JsonNewline newlinesGet (Inr (JObject [(''n'', JNumber 1)])) emptyResponse)
        = ''{'' @ [CHR 0x22] @ ''n'' @ [CHR 0x22] @ '':1}'' @ [newline]
   \<and> headers (JsonNewline newlinesGet (Inr (JObject [(''n'', JNumber 1)])) emptyResponse)
        ''Content-Type'' = Some ''application/newlines''"
proof -
  have a: "Header_Get newlinesGet ''Accept'' = ''application/newlines''"
    by (simp add: newlinesGet_def Header_Get_def)
  have b: "status emptyResponse = None" by (simp add: emptyResponse_def)
  have e: "body emptyResponse = []" by (simp add: emptyResponse_def)
  have n: "showInt 1 = ''1''" "showInt 2 = ''2''" "showInt 3 = ''3''"
    by (simp_all add: showInt_def showNat_digit digitChar_def)
  let ?three = "JArray [JObject [(''n'', JNumber 1)], JObject [(''n'', JNumber 2)],
                         JObject [(''n'', JNumber 3)]]"
  let ?one = "JObject [(''n'', JNumber 1)]"
  note three = newlines_response_shape[OF a b, of ?three]
  note one = newlines_response_shape[OF a b, of ?one]
  have b3: "body (JsonNewline newlinesGet (Inr ?three) emptyResponse)
        = ''{'' @ [CHR 0x22] @ ''n'' @ [CHR 0x22] @ '':1}'' @ [newline]
          @ ''{'' @ [CHR 0x22] @ ''n'' @ [CHR 0x22] @ '':2}'' @ [newline]
          @ ''{'' @ [CHR 0x22] @ ''n'' @ [CHR 0x22] @ '':3}'' @ [newline]"
    using three[THEN conjunct1] by (simp add: e n encodeString_def escapeChar_def)
  have c3: "count_list (body (JsonNewline newlinesGet (Inr ?three) emptyResponse)) newline = 3"
    using three[THEN conjunct2, THEN conjunct1] by (simp add: e)
  have b1: "body (JsonNewline newlinesGet (Inr ?one) emptyResponse)
        = ''{'' @ [CHR 0x22] @ ''n'' @ [CHR 0x22] @ '':1}'' @ [newline]"
    using one[THEN conjunct1] by (simp add: e n encodeString_def escapeChar_def)
  have h1: "headers (JsonNewline newlinesGet (Inr ?one) emptyResponse) ''Content-Type''
        = Some ''application/newlines''"
    using one by blast
  from b3 c3 b1 h1 show ?thesis by blast
qed

text \<open>
  Claim C7 fails on the code. A value that marshals to the document \<^verbatim>\<open>null\<close> (a nil
  slice, map or pointer) does not marshal to an array, so the whole document followed
  by one newline is due. \<^verbatim>\<open>NewLine\<close> decides "not an array" by the error of decoding
  the document into a slice, and the decoder accepts \<^verbatim>\<open>null\<close> for a slice without an
  error: the branch of the loop is taken, over no elements, and nothing is written to
  the body. For the same value \<^verbatim>\<open>JSON\<close>, the shaper of every other request, writes
  the document \<^verbatim>\<open>null\<close>.
\<close>

theorem newlines_null_writes_nothing:
  assumes "Header_Get r ''Accept'' = ''application/newlines''"
  shows "encodeJSON JNull = ''null''
       \<and> unmarshalRaw JNull = Some []
       \<and> body (JsonNewline r (Inr JNull) w) = body w
       \<and> body (JsonNewline r (Inr JNull) w) \<noteq> body w @ encodeJSON JNull @ [newline]
       \<and> body (Context_JSON (Inr JNull) w) = body w @ ''null''"
  using assms
  by (simp add: JsonNewline_def NewLine_body Context_JSON_def unmarshalRaw_def Write_fields
      Header_Set_def)

theorem newlines_null_writes_nothing_witness:
  "Header_Get newlinesGet ''Accept'' = ''application/newlines''
   \<and> encodeJSON JNull = ''null''
   \<and> body (JsonNewline newlinesGet (Inr JNull) emptyResponse) = []
   \<and> body (Context_JSON (Inr JNull) emptyResponse) = ''null''"
proof -
  have a: "Header_Get newlinesGet ''Accept'' = ''application/newlines''"
    by (simp add: newlinesGet_def Header_Get_def)
  have e: "body emptyResponse = []" by (simp add: emptyResponse_def)
  from newlines_null_writes_nothing[OF a, of emptyResponse] a show ?thesis
    by (simp add: e)
qed

end
